theory Spec2Isabelle
  imports Main
begin

section \<open>Dates, errors and attributes\<close>

text \<open>
  A \<^verbatim>\<open>datetime.date\<close> is modelled by its proleptic Gregorian ordinal
  (\<^verbatim>\<open>date.toordinal()\<close>): day 1 is 0001-01-01, a Monday, and day 3652059 is
  9999-12-31. Date arithmetic of Python goes through the ordinal, and
  \<^verbatim>\<open>date - timedelta\<close> raises OverflowError when the result leaves that range.
  \<^verbatim>\<open>weekday()\<close> is \<^verbatim>\<open>(toordinal() + 6) % 7\<close>: Monday is 0, Sunday is 6.
\<close>

type_synonym date = int

datatype error =
    OverflowError
  | NameError
  | AttributeError
  | IndexError
  | ValueError
  | UnknownTimeZoneError
  | InvalidIndexError
  | ServiceError string

definition MAXORDINAL :: int where
  "MAXORDINAL = 3652059"

definition valid_date :: "date \<Rightarrow> bool" where
  "valid_date d = (1 \<le> d \<and> d \<le> MAXORDINAL)"

definition date_sub :: "date \<Rightarrow> int \<Rightarrow> error + date" where
  "date_sub d days = (if valid_date (d - days) then Inr (d - days) else Inl OverflowError)"

definition weekday :: "date \<Rightarrow> int" where
  "weekday d = (d + 6) mod 7"

section \<open>DatePicker\<close>

text \<open>
  A \<^verbatim>\<open>DatetimePicker\<close> widget is kept as the arguments it was built with. The text of
  its value (\<^verbatim>\<open>f'{d}'\<close>, the ISO form of a date, or \<^verbatim>\<open>"1900-01-01T09:30"\<close>) is kept
  as the date, hour and minute it denotes: \<open>DateText d\<close> is the text of the date with
  ordinal \<open>d\<close>, and \<open>DateTimeText d h m\<close> the text of that day at \<open>h:m\<close>.
\<close>

datatype stamp = DateText date | DateTimeText date int int

record DatetimePicker =
  css :: string
  val :: "stamp list"
  weekdays_only :: bool
  weekends_only :: bool
  range_mode :: bool
  timepicker_mode :: bool

record DatePicker =
  cnt :: int
  f_date_css :: string
  f_time_css :: string
  f_dates :: "DatetimePicker list"
  f_today :: date
  f_time_range :: DatetimePicker

definition date_css :: string where
  "date_css = ''border: 2px solid green; width: 150px; border-radius: 20px''"

definition time_css :: string where
  "time_css = ''border: 2px solid green; width: 300px; border-radius: 20px''"

definition day_1900_01_01 :: date where
  "day_1900_01_01 = 693596"

definition date_widget :: "string \<Rightarrow> date \<Rightarrow> DatetimePicker" where
  "date_widget c d =
     \<lparr>css = c, val = [DateText d], weekdays_only = True, weekends_only = False,
      range_mode = False, timepicker_mode = False\<rparr>"

definition time_widget :: "string \<Rightarrow> DatetimePicker" where
  "time_widget c =
     \<lparr>css = c, val = [DateTimeText day_1900_01_01 9 30, DateTimeText day_1900_01_01 16 0],
      weekdays_only = False, weekends_only = True, range_mode = True, timepicker_mode = True\<rparr>"

text \<open>
  The inner \<^verbatim>\<open>while True\<close> loop of \<^verbatim>\<open>__post_init__\<close>: starting at \<open>delta\<close>, step back one
  day at a time until \<open>today - delta\<close> is a weekday. It returns the day found and the
  value of \<open>delta\<close> at the \<^verbatim>\<open>break\<close>.
\<close>

function skip_weekend :: "date \<Rightarrow> int \<Rightarrow> error + (date \<times> int)" where
  "skip_weekend today delta =
     (case date_sub today delta of
        Inl e \<Rightarrow> Inl e
      | Inr d \<Rightarrow> if weekday d < 5 then Inr (d, delta) else skip_weekend today (delta + 1))"
  by pat_completeness auto
termination
  by (relation "measure (\<lambda>(today, delta). nat (today - delta))")
     (auto simp: date_sub_def valid_date_def split: if_splits)

declare skip_weekend.simps [simp del]

text \<open>
  The outer \<^verbatim>\<open>for i in range(self.cnt)\<close> loop, with the iterations left, the running
  \<open>delta\<close> and the list \<^verbatim>\<open>self._dates\<close> built so far.
\<close>

fun init_dates :: "string \<Rightarrow> date \<Rightarrow> nat \<Rightarrow> int \<Rightarrow> DatetimePicker list \<Rightarrow> error + DatetimePicker list" where
  "init_dates c today 0 delta ds = Inr ds"
| "init_dates c today (Suc n) delta ds =
     (case skip_weekend today delta of
        Inl e \<Rightarrow> Inl e
      | Inr (d, delta') \<Rightarrow> init_dates c today n (delta' + 1) (ds @ [date_widget c d]))"

text \<open>
  \<^verbatim>\<open>DatePicker(cnt)\<close>: the dataclass sets the defaults (\<^verbatim>\<open>_dates\<close> empty, \<^verbatim>\<open>_today\<close> the
  class-level default \<^verbatim>\<open>datetime.date.today()\<close>, taken here as the parameter \<open>today\<close>)
  and runs \<^verbatim>\<open>__post_init__\<close>, whose first line replaces a count outside 1..10 by 5
  (\<open>bounded_cnt\<close>).
\<close>

definition bounded_cnt :: "int \<Rightarrow> int" where
  "bounded_cnt c = (if c < 1 \<or> c > 10 then 5 else c)"

definition post_init :: "date \<Rightarrow> int \<Rightarrow> error + DatePicker" where
  "post_init today cnt0 =
     (case init_dates date_css today (nat (bounded_cnt cnt0)) 1 [] of
        Inl e \<Rightarrow> Inl e
      | Inr ds \<Rightarrow>
          Inr \<lparr>cnt = bounded_cnt cnt0, f_date_css = date_css, f_time_css = time_css,
               f_dates = ds, f_today = today, f_time_range = time_widget time_css\<rparr>)"

text \<open>The date held by a date selector (\<^verbatim>\<open>x.value[0]\<close> read back as a date).\<close>

fun stamp_date :: "stamp \<Rightarrow> date" where
  "stamp_date (DateText d) = d"
| "stamp_date (DateTimeText d h m) = d"

definition preset :: "DatetimePicker \<Rightarrow> date" where
  "preset w = stamp_date (hd (val w))"

text \<open>
  The properties \<^verbatim>\<open>dates\<close> and \<^verbatim>\<open>time_range\<close> read the widgets back with
  \<^verbatim>\<open>strptime\<close>: a date selector gives its day at 00:00, the time selector its two
  ends.
\<close>

record pydatetime =
  dt_day :: date
  hour :: int
  minute :: int

fun strptime :: "stamp \<Rightarrow> pydatetime" where
  "strptime (DateText d) = \<lparr>dt_day = d, hour = 0, minute = 0\<rparr>"
| "strptime (DateTimeText d h m) = \<lparr>dt_day = d, hour = h, minute = m\<rparr>"

definition dates :: "DatePicker \<Rightarrow> pydatetime list" where
  "dates dp = map (\<lambda>x. strptime (hd (val x))) (f_dates dp)"

definition time_range :: "DatePicker \<Rightarrow> pydatetime list" where
  "time_range dp = [strptime (val (f_time_range dp) ! 0), strptime (val (f_time_range dp) ! 1)]"

section \<open>Intraday: data\<close>

text \<open>
  A dataclass field declared with \<^verbatim>\<open>field(init=False)\<close> and no default is not set
  by the constructor: the attribute does not exist until it is assigned. \<open>Unset\<close> is
  that state, \<open>PyNone\<close> the value \<^verbatim>\<open>None\<close>.
\<close>

datatype 'a attr = Unset | PyNone | Value 'a

text \<open>
  An instant is a number of seconds, counted so that local midnight of the day with
  ordinal \<open>d\<close> is \<open>d * 86400\<close> on the wall clock. A \<^verbatim>\<open>pytz\<close> timezone object has the
  offset it reports when it is passed unlocalized as \<^verbatim>\<open>tzinfo=\<close> to the
  \<^verbatim>\<open>datetime\<close> constructor (its own \<^verbatim>\<open>_utcoffset\<close>: for a zone with a history, pytz
  documents this to be the first entry of the zone's table, usually local mean time),
  and the offset in force at each UTC instant, which \<^verbatim>\<open>tz_convert\<close> and
  \<^verbatim>\<open>localize\<close> use. Both are parameters here.
\<close>

record tzinfo =
  default_utcoffset :: int
  utcoffset_at :: "int \<Rightarrow> int"

datatype dates_arg = Single date | Several "date list"

text \<open>
  One minute bar of the response of the pricing service: its timestamp (naive, in UTC)
  and the two requested fields, in the order requested. Cell values are of a type
  \<open>'v\<close> left open (numbers, missing values, text).
\<close>

record 'v bar =
  at :: int
  trdprc_1 :: 'v
  acvol_uns :: 'v

text \<open>
  A one-column frame (\<^verbatim>\<open>price_df\<close>, \<^verbatim>\<open>volume_df\<close>): the column's label and, per row,
  the index value (a time of day, in seconds) and the cell. A wide table: the column
  labels and, per row, the index value and one cell per column.
\<close>

record 'v column =
  label :: date
  entries :: "(int \<times> 'v) list"

record 'c table =
  columns :: "date list"
  trows :: "(int \<times> 'c list) list"

text \<open>
  What the code calls outside this repository, as parameters: \<^verbatim>\<open>rd.get_data\<close> (the
  rows of the frame it returns, each a list of cell texts), \<^verbatim>\<open>pytz.timezone\<close>, the
  \<^verbatim>\<open>historical_pricing.summaries\<close> request for an instrument and a UTC window, and
  the arithmetic of the cell values: \<^verbatim>\<open>isna\<close>, \<^verbatim>\<open>pd.to_numeric\<close> on one cell,
  subtraction and division.
\<close>

record 'v env =
  rd_get_data :: "string \<Rightarrow> string \<Rightarrow> error + string list list"
  pytz_timezone :: "string \<Rightarrow> error + tzinfo"
  get_summaries :: "string \<Rightarrow> int \<Rightarrow> int \<Rightarrow> error + 'v bar list"
  isna :: "'v \<Rightarrow> bool"
  to_numeric :: "'v \<Rightarrow> error + 'v"
  minus_v :: "'v \<Rightarrow> 'v \<Rightarrow> 'v"
  div_v :: "'v \<Rightarrow> 'v \<Rightarrow> 'v"

record 'v Intraday =
  f_tz :: "string attr"
  f_label :: "string attr"
  f_prices :: "'v table attr"
  f_volumes :: "'v table attr"

definition new_Intraday :: "'v Intraday" where
  "new_Intraday = \<lparr>f_tz = Unset, f_label = Unset, f_prices = Unset, f_volumes = Unset\<rparr>"

text \<open>
  What the calls do to the outside: the lines printed, the requests sent to the pricing
  service (instrument, start and end of the window in UTC) and the charts drawn.
\<close>

datatype msg =
    Processing
  | NoDataReturned string int int
  | IssueRetrieving string int int error
  | FailedToGenerate
  | Done
  | ExceptionOccurred error
  | FailedTimezone string
  | NoMeasuresGenerated

datatype chart = PriceChart string | VolumeChart

record world =
  printed :: "msg list"
  requests :: "(string \<times> int \<times> int) list"
  charts :: "chart list"

definition print :: "msg \<Rightarrow> world \<Rightarrow> world" where
  "print m w = w\<lparr>printed := printed w @ [m]\<rparr>"

definition send :: "string \<times> int \<times> int \<Rightarrow> world \<Rightarrow> world" where
  "send r w = w\<lparr>requests := requests w @ [r]\<rparr>"

section \<open>Intraday: the timezone of the instrument\<close>

definition frame_empty :: "string list list \<Rightarrow> bool" where
  "frame_empty rows = (case rows of [] \<Rightarrow> True | r # _ \<Rightarrow> r = [])"

definition iat_0_1 :: "string list list \<Rightarrow> error + string" where
  "iat_0_1 rows =
     (case rows of
        [] \<Rightarrow> Inl IndexError
      | r # _ \<Rightarrow> (case r of a # b # _ \<Rightarrow> Inr b | _ \<Rightarrow> Inl IndexError))"

text \<open>
  The \<^verbatim>\<open>try\<close> block of \<^verbatim>\<open>__get_timezone\<close>. It gives the object as the block leaves it,
  the exception the block raised, if any, and \<^verbatim>\<open>success\<close>. An exception after
  \<^verbatim>\<open>self._tz\<close> was assigned leaves that assignment in place.
\<close>

definition try_timezone :: "'v env \<Rightarrow> 'v Intraday \<Rightarrow> string \<Rightarrow> 'v Intraday \<times> error option \<times> bool" where
  "try_timezone env self ric =
     (case rd_get_data env ric ''TR.MASOperatingTZ'' of
        Inl e \<Rightarrow> (self, Some e, False)
      | Inr tz \<Rightarrow>
          (case rd_get_data env ric ''CF_NAME'' of
             Inl e \<Rightarrow> (self, Some e, False)
           | Inr nm \<Rightarrow>
               if \<not> frame_empty tz then
                 (case iat_0_1 tz of
                    Inl e \<Rightarrow> (self, Some e, False)
                  | Inr z \<Rightarrow>
                      (case iat_0_1 nm of
                         Inl e \<Rightarrow> (self\<lparr>f_tz := Value z\<rparr>, Some e, False)
                       | Inr n \<Rightarrow>
                           (self\<lparr>f_tz := Value z,
                                 f_label := Value (n @ '' (Timezone: '' @ z @ '')'')\<rparr>,
                            None, True)))
               else (self, None, False)))"

text \<open>
  \<^verbatim>\<open>__get_timezone\<close>: the \<^verbatim>\<open>except\<close> clause prints the exception, the \<^verbatim>\<open>finally\<close>
  clause prints the failure and returns \<^verbatim>\<open>success\<close>.
\<close>

definition get_timezone :: "'v env \<Rightarrow> 'v Intraday \<Rightarrow> world \<Rightarrow> string \<Rightarrow> 'v Intraday \<times> world \<times> bool" where
  "get_timezone env self w ric =
     (case try_timezone env self ric of
        (self', raised, success) \<Rightarrow>
          let w1 = (case raised of None \<Rightarrow> w | Some e \<Rightarrow> print (ExceptionOccurred e) w);
              w2 = (if \<not> success then print (FailedTimezone ric) w1 else w1)
          in (self', w2, success))"

section \<open>Intraday: one trading day\<close>

text \<open>
  \<^verbatim>\<open>datetime(date.year, date.month, date.day, t.hour, t.minute, 0, tzinfo=tz)\<close> followed
  by \<^verbatim>\<open>.astimezone(pytz.utc).replace(tzinfo=pytz.utc)\<close>: the wall-clock reading minus
  the offset the \<^verbatim>\<open>tzinfo\<close> object reports for it, which for an object attached through
  the constructor is \<open>default_utcoffset\<close>. Python raises OverflowError when the
  result leaves the years 1 to 9999.
\<close>

definition wall_clock :: "date \<Rightarrow> pydatetime \<Rightarrow> int" where
  "wall_clock d t = d * 86400 + hour t * 3600 + minute t * 60"

definition to_utc :: "tzinfo \<Rightarrow> int \<Rightarrow> error + int" where
  "to_utc tz local =
     (let t = local - default_utcoffset tz
      in if valid_date (t div 86400) then Inr t else Inl OverflowError)"

text \<open>
  The index after \<^verbatim>\<open>tz_localize('UTC')\<close> and \<^verbatim>\<open>tz_convert(self._tz)\<close> keeps the instants
  and shows them in the zone: \<^verbatim>\<open>.date()\<close> and \<^verbatim>\<open>.time\<close> of an entry are read off the
  instant plus the offset in force at it.
\<close>

definition local_date :: "tzinfo \<Rightarrow> int \<Rightarrow> date" where
  "local_date tz t = (t + utcoffset_at tz t) div 86400"

definition local_time :: "tzinfo \<Rightarrow> int \<Rightarrow> int" where
  "local_time tz t = (t + utcoffset_at tz t) mod 86400"

definition dropna :: "'v env \<Rightarrow> 'v bar list \<Rightarrow> 'v bar list" where
  "dropna env df = filter (\<lambda>b. \<not> isna env (trdprc_1 b) \<and> \<not> isna env (acvol_uns b)) df"

text \<open>\<^verbatim>\<open>pd.to_numeric\<close> on a column: the first cell that cannot be converted raises.\<close>

fun to_numeric_all :: "'v env \<Rightarrow> 'v list \<Rightarrow> error + 'v list" where
  "to_numeric_all env [] = Inr []"
| "to_numeric_all env (x # xs) =
     (case to_numeric env x of
        Inl e \<Rightarrow> Inl e
      | Inr y \<Rightarrow> (case to_numeric_all env xs of Inl e \<Rightarrow> Inl e | Inr ys \<Rightarrow> Inr (y # ys)))"

text \<open>
  The measure (\<open>measr\<close> is the argument \<^verbatim>\<open>measure\<close>, \<open>None\<close> by default):
  \<^verbatim>\<open>df[price][0]\<close> is the first row's price, by position, and the arithmetic is
  applied to every row of the column. On an empty column the read by position raises.
\<close>

definition derive :: "'v env \<Rightarrow> string option \<Rightarrow> 'v list \<Rightarrow> error + 'v list" where
  "derive env measr ps =
     (if measr = Some ''net'' then
        (case ps of
           [] \<Rightarrow> Inl IndexError
         | p0 # _ \<Rightarrow> Inr (map (\<lambda>p. minus_v env p p0) ps))
      else if measr = Some ''pct'' then
        (case ps of
           [] \<Rightarrow> Inl IndexError
         | p0 # _ \<Rightarrow> Inr (map (\<lambda>p. div_v env (minus_v env p p0) p0) ps))
      else Inr ps)"

text \<open>
  The body of the \<^verbatim>\<open>try\<close> block for one day, after the request was sent: \<open>Inl e\<close> when
  an exception reaches the \<^verbatim>\<open>except\<close> clause, \<open>Inr None\<close> when the frame is empty after
  \<^verbatim>\<open>dropna()\<close>, otherwise the day's price and volume columns, both labelled with the
  local date of the latest bar and indexed by the local time of day of each bar.
  The zone name is resolved again for \<^verbatim>\<open>tz_convert\<close>; \<^verbatim>\<open>df.iloc(1)[0]\<close>, the first
  column of the frame, is the price column, which \<^verbatim>\<open>pd.to_numeric\<close> converts before
  the measure is derived.
\<close>

definition retrieve_day ::
  "'v env \<Rightarrow> string \<Rightarrow> string \<Rightarrow> int \<Rightarrow> int \<Rightarrow> string option \<Rightarrow> error + ('v column \<times> 'v column) option" where
  "retrieve_day env z ric start end measr =
     (case get_summaries env ric start end of
        Inl e \<Rightarrow> Inl e
      | Inr response \<Rightarrow>
          (case dropna env response of
             [] \<Rightarrow> Inr None
           | b # bs \<Rightarrow>
               (case pytz_timezone env z of
                  Inl e \<Rightarrow> Inl e
                | Inr tz \<Rightarrow>
                    (case to_numeric_all env (map trdprc_1 (b # bs)) of
                       Inl e \<Rightarrow> Inl e
                     | Inr numeric \<Rightarrow>
                         (case derive env measr numeric of
                            Inl e \<Rightarrow> Inl e
                          | Inr ps \<Rightarrow>
                              let day = local_date tz (fold max (map at bs) (at b));
                                  times = map (\<lambda>r. local_time tz (at r)) (b # bs)
                              in Inr (Some (\<lparr>label = day, entries = zip times ps\<rparr>,
                                            \<lparr>label = day,
                                             entries = zip times (map acvol_uns (b # bs))\<rparr>)))))))"

text \<open>
  The window of one day: start and end of the selected time range on that date, both
  converted to UTC. This part of the loop body is outside the \<^verbatim>\<open>try\<close> block.
\<close>

definition window :: "'v env \<Rightarrow> string attr \<Rightarrow> date \<Rightarrow> pydatetime list \<Rightarrow> error + (int \<times> int)" where
  "window env tzname d tr =
     (case tzname of
        Unset \<Rightarrow> Inl AttributeError
      | PyNone \<Rightarrow> Inl UnknownTimeZoneError
      | Value z \<Rightarrow>
          (case pytz_timezone env z of
             Inl e \<Rightarrow> Inl e
           | Inr tz \<Rightarrow>
               (case to_utc tz (wall_clock d (tr ! 0)) of
                  Inl e \<Rightarrow> Inl e
                | Inr start \<Rightarrow>
                    (case to_utc tz (wall_clock d (tr ! 1)) of
                       Inl e \<Rightarrow> Inl e
                     | Inr end \<Rightarrow> Inr (start, end)))))"

definition tz_name :: "string attr \<Rightarrow> string" where
  "tz_name a = (case a of Value z \<Rightarrow> z | _ \<Rightarrow> [])"

text \<open>
  The loop \<^verbatim>\<open>for date in dates\<close>, with the lists \<^verbatim>\<open>prices\<close> and \<^verbatim>\<open>volumes\<close> built so far.
  An exception outside the \<^verbatim>\<open>try\<close> block ends the loop and the call.
\<close>

fun each_date ::
  "'v env \<Rightarrow> string attr \<Rightarrow> string \<Rightarrow> pydatetime list \<Rightarrow> string option \<Rightarrow> date list \<Rightarrow>
   world \<times> 'v column list \<times> 'v column list \<Rightarrow> world \<times> (error + 'v column list \<times> 'v column list)" where
  "each_date env tzname ric tr measr [] (w, prices, volumes) = (w, Inr (prices, volumes))"
| "each_date env tzname ric tr measr (d # ds) (w, prices, volumes) =
     (case window env tzname d tr of
        Inl e \<Rightarrow> (w, Inl e)
      | Inr (start, end) \<Rightarrow>
          (case retrieve_day env (tz_name tzname) ric start end measr of
             Inl e \<Rightarrow>
               each_date env tzname ric tr measr ds
                 (print (IssueRetrieving ric start end e) (send (ric, start, end) w), prices, volumes)
           | Inr None \<Rightarrow>
               each_date env tzname ric tr measr ds
                 (print (NoDataReturned ric start end) (send (ric, start, end) w), prices, volumes)
           | Inr (Some (price_df, volume_df)) \<Rightarrow>
               each_date env tzname ric tr measr ds
                 (send (ric, start, end) w, prices @ [price_df], volumes @ [volume_df])))"

section \<open>Intraday: the tables\<close>

text \<open>
  \<^verbatim>\<open>pd.concat(frames, axis=1, sort=False)\<close> on one-column frames. When all frames have
  the same index, the result keeps it and sets the columns side by side. Otherwise the
  frames are aligned on the union of their indexes, in order of first appearance, a
  missing cell being \<open>None\<close>; aligning a frame whose index has a repeated value raises.
  An empty list of frames raises ValueError.
\<close>

fun union_index :: "int list \<Rightarrow> int list \<Rightarrow> int list" where
  "union_index seen [] = seen"
| "union_index seen (t # ts) = union_index (if t \<in> set seen then seen else seen @ [t]) ts"

definition concat_axis1 :: "'v column list \<Rightarrow> error + 'v option table" where
  "concat_axis1 frames =
     (case map (\<lambda>c. map fst (entries c)) frames of
        [] \<Rightarrow> Inl ValueError
      | first # others \<Rightarrow>
          if \<forall>i \<in> set others. i = first then
            Inr \<lparr>columns = map label frames,
                 trows = map (\<lambda>k. (first ! k, map (\<lambda>c. Some (snd (entries c ! k))) frames))
                           [0 ..< length first]\<rparr>
          else if \<exists>i \<in> set (first # others). \<not> distinct i then Inl InvalidIndexError
          else
            Inr \<lparr>columns = map label frames,
                 trows = map (\<lambda>t. (t, map (\<lambda>c. map_of (entries c) t) frames))
                           (union_index [] (concat (first # others)))\<rparr>)"

text \<open>\<^verbatim>\<open>dropna()\<close> on the wide table: a row with a missing cell is dropped.\<close>

fun whole_row :: "'v env \<Rightarrow> 'v option list \<Rightarrow> 'v list option" where
  "whole_row env [] = Some []"
| "whole_row env (c # cs) =
     (case c of
        None \<Rightarrow> None
      | Some v \<Rightarrow>
          if isna env v then None
          else (case whole_row env cs of None \<Rightarrow> None | Some vs \<Rightarrow> Some (v # vs)))"

definition dropna_table :: "'v env \<Rightarrow> 'v option table \<Rightarrow> 'v table" where
  "dropna_table env t =
     \<lparr>columns = columns t,
      trows = List.map_filter
                (\<lambda>(i, r). case whole_row env r of None \<Rightarrow> None | Some vs \<Rightarrow> Some (i, vs))
                (trows t)\<rparr>"

text \<open>
  \<^verbatim>\<open>calculate_measures\<close>. The result is the object and the outside world after the call
  and, when an exception leaves the call, that exception. The progress bar is a widget
  that nothing reads and is left out (\<^verbatim>\<open>display\<close> is the notebook's builtin). \<open>as_list\<close> is the wrapping of a single date
  (\<^verbatim>\<open>if not isinstance(dates, list): dates = [dates]\<close>).
\<close>

definition organize ::
  "'v env \<Rightarrow> 'v Intraday \<Rightarrow> world \<Rightarrow> 'v column list \<Rightarrow> 'v column list \<Rightarrow>
   'v Intraday \<times> world \<times> (error + unit)" where
  "organize env self w prices volumes =
     (if length prices > 0 then
        (case concat_axis1 prices of
           Inl e \<Rightarrow> (self, w, Inl e)
         | Inr p \<Rightarrow>
             (case concat_axis1 volumes of
                Inl e \<Rightarrow> (self\<lparr>f_prices := Value (dropna_table env p)\<rparr>, w, Inl e)
              | Inr v \<Rightarrow>
                  (self\<lparr>f_prices := Value (dropna_table env p),
                        f_volumes := Value (dropna_table env v)\<rparr>,
                   print Done w, Inr ())))
      else (self, print Done (print FailedToGenerate w), Inr ()))"

definition as_list :: "dates_arg \<Rightarrow> date list" where
  "as_list dates_in = (case dates_in of Single d \<Rightarrow> [d] | Several l \<Rightarrow> l)"

definition calculate_measures ::
  "'v env \<Rightarrow> 'v Intraday \<Rightarrow> world \<Rightarrow> string \<Rightarrow> dates_arg \<Rightarrow> pydatetime list \<Rightarrow> string option \<Rightarrow>
   'v Intraday \<times> world \<times> (error + unit)" where
  "calculate_measures env self w ric dates_in tr measr =
     (if length (as_list dates_in) < 1 \<or> length tr \<noteq> 2 then (self, w, Inr ())
      else
        (case get_timezone env (self\<lparr>f_prices := PyNone, f_volumes := PyNone\<rparr>)
                (print Processing w) ric of
           (self', w', success) \<Rightarrow>
             if success then
               (case each_date env (f_tz self') ric tr measr (as_list dates_in) (w', [], []) of
                  (w'', Inl e) \<Rightarrow> (self', w'', Inl e)
                | (w'', Inr (prices, volumes)) \<Rightarrow> organize env self' w'' prices volumes)
             else organize env self' w' [] []))"

text \<open>The properties \<^verbatim>\<open>prices\<close> and \<^verbatim>\<open>volumes\<close>, with \<^verbatim>\<open>hasattr\<close> as the test for \<open>Unset\<close>.\<close>

definition prices :: "'v Intraday \<Rightarrow> 'v table option" where
  "prices self = (case f_prices self of Value t \<Rightarrow> Some t | _ \<Rightarrow> None)"

definition volumes :: "'v Intraday \<Rightarrow> 'v table option" where
  "volumes self = (case f_volumes self of Value t \<Rightarrow> Some t | _ \<Rightarrow> None)"

text \<open>
  \<^verbatim>\<open>plot\<close>. Reading \<^verbatim>\<open>self._prices\<close> before it was ever assigned raises AttributeError.
  With a table stored and \<^verbatim>\<open>title is None\<close>, the assignment \<^verbatim>\<open>title = _label\<close> reads a
  name that is neither a local nor a global of the module nor a builtin, which raises
  NameError. \<^verbatim>\<open>self.volumes.iplot\<close> on \<^verbatim>\<open>None\<close> raises AttributeError.
\<close>

definition plot :: "'v Intraday \<Rightarrow> world \<Rightarrow> string option \<Rightarrow> world \<times> (error + unit)" where
  "plot self w title =
     (case f_prices self of
        Unset \<Rightarrow> (w, Inl AttributeError)
      | PyNone \<Rightarrow> (print NoMeasuresGenerated w, Inr ())
      | Value p \<Rightarrow>
          (case title of
             None \<Rightarrow> (w, Inl NameError)
           | Some t \<Rightarrow>
               (case volumes self of
                  None \<Rightarrow> (w\<lparr>charts := charts w @ [PriceChart t]\<rparr>, Inl AttributeError)
                | Some v \<Rightarrow> (w\<lparr>charts := charts w @ [PriceChart t, VolumeChart]\<rparr>, Inr ()))))"

section \<open>Notions used to state the properties\<close>

text \<open>
  What one date contributes to the lists \<^verbatim>\<open>prices\<close> and \<^verbatim>\<open>volumes\<close>: its two columns
  when its window can be built and its request returns data that passes the \<^verbatim>\<open>try\<close>
  block, nothing otherwise.
\<close>

definition returned_data ::
  "'v env \<Rightarrow> string attr \<Rightarrow> string \<Rightarrow> pydatetime list \<Rightarrow> string option \<Rightarrow> date \<Rightarrow>
   ('v column \<times> 'v column) option" where
  "returned_data env tzname ric tr measr d =
     (case window env tzname d tr of
        Inl e \<Rightarrow> None
      | Inr (start, end) \<Rightarrow>
          (case retrieve_day env (tz_name tzname) ric start end measr of
             Inl e \<Rightarrow> None
           | Inr r \<Rightarrow> r))"

text \<open>An index value that is a time of day, in seconds after midnight.\<close>

definition time_of_day :: "int \<Rightarrow> bool" where
  "time_of_day i = (0 \<le> i \<and> i < 86400)"

text \<open>Whether \<^verbatim>\<open>__get_timezone\<close> succeeds for an instrument.\<close>

definition timezone_found :: "'v env \<Rightarrow> string \<Rightarrow> bool" where
  "timezone_found env ric = snd (snd (try_timezone env new_Intraday ric))"

section \<open>An example environment\<close>

text \<open>
  A zone like \<^verbatim>\<open>America/New_York\<close> as pytz presents it: the unlocalized object reports
  local mean time, 4:56 behind UTC, and on the days of the example daylight time is in
  force, 4:00 behind UTC. The example service knows one instrument in that zone. It
  has three bars for the window that starts on 2021-06-01 (ordinal 737942), fails for
  a window that starts on 2021-06-02 and has no bars otherwise. Cells are integers and
  a negative cell is a missing value.
\<close>

definition new_york :: tzinfo where
  "new_york = \<lparr>default_utcoffset = - 17760, utcoffset_at = (\<lambda>t. - 14400)\<rparr>"

definition demo_env :: "int env" where
  "demo_env =
     \<lparr>rd_get_data = (\<lambda>ric fld.
        if fld = ''TR.MASOperatingTZ'' then Inr [[ric, ''America/New_York'']]
        else Inr [[ric, ''INTL BUS MACHINE'']]),
      pytz_timezone = (\<lambda>z.
        if z = ''America/New_York'' then Inr new_york else Inl UnknownTimeZoneError),
      get_summaries = (\<lambda>ric start end.
        if start div 86400 = 737942 then
          Inr [\<lparr>at = start, trdprc_1 = 100, acvol_uns = 10\<rparr>,
               \<lparr>at = start + 60, trdprc_1 = 300, acvol_uns = 20\<rparr>,
               \<lparr>at = start + 120, trdprc_1 = 200, acvol_uns = 30\<rparr>]
        else if start div 86400 = 737943 then Inl (ServiceError ''timeout'')
        else Inr []),
      isna = (\<lambda>v. v < 0),
      to_numeric = Inr,
      minus_v = (\<lambda>a b. a - b),
      div_v = (\<lambda>a b. a div b)\<rparr>"

definition demo_range :: "pydatetime list" where
  "demo_range = [\<lparr>dt_day = day_1900_01_01, hour = 9, minute = 30\<rparr>,
                 \<lparr>dt_day = day_1900_01_01, hour = 16, minute = 0\<rparr>]"

definition quiet :: world where
  "quiet = \<lparr>printed = [], requests = [], charts = []\<rparr>"

text \<open>
  A second example: the same instrument and zone, a service that returns one bar, one
  minute before the end of the requested window, and a time range from 09:30 to 23:30.
\<close>

definition late_env :: "int env" where
  "late_env =
     demo_env\<lparr>get_summaries :=
       (\<lambda>ric start end. Inr [\<lparr>at = end - 60, trdprc_1 = 100, acvol_uns = 10\<rparr>])\<rparr>"

definition late_range :: "pydatetime list" where
  "late_range = [\<lparr>dt_day = day_1900_01_01, hour = 9, minute = 30\<rparr>,
                 \<lparr>dt_day = day_1900_01_01, hour = 23, minute = 30\<rparr>]"

section \<open>Properties of DatePicker\<close>

lemma weekday_range: "0 \<le> weekday d \<and> weekday d < 7"
  by (simp add: weekday_def)

lemma skip_weekend_Inr:
  "skip_weekend today delta = Inr (d, delta') \<Longrightarrow>
     d = today - delta' \<and> delta \<le> delta' \<and> weekday d < 5 \<and> valid_date d \<and>
     (\<forall>k. delta \<le> k \<and> k < delta' \<longrightarrow> \<not> weekday (today - k) < 5)"
proof (induction today delta rule: skip_weekend.induct)
  case (1 today delta)
  show ?case
  proof (cases "date_sub today delta")
    case (Inl e)
    with "1.prems" show ?thesis by (simp add: skip_weekend.simps)
  next
    case (Inr x)
    then have x: "x = today - delta" "valid_date x"
      by (auto simp: date_sub_def split: if_splits)
    show ?thesis
    proof (cases "weekday x < 5")
      case True
      with "1.prems" Inr x show ?thesis by (auto simp: skip_weekend.simps)
    next
      case False
      with "1.prems" Inr have rec: "skip_weekend today (delta + 1) = Inr (d, delta')"
        by (simp add: skip_weekend.simps)
      from "1.IH" [OF Inr False rec]
      have ih: "d = today - delta'" "delta + 1 \<le> delta'" "weekday d < 5" "valid_date d"
        "\<forall>k. delta + 1 \<le> k \<and> k < delta' \<longrightarrow> \<not> weekday (today - k) < 5"
        by auto
      have "\<not> weekday (today - k) < 5" if "delta \<le> k" "k < delta'" for k
      proof (cases "k = delta")
        case True
        with False x show ?thesis by simp
      next
        case False
        with that ih(5) show ?thesis by auto
      qed
      with ih show ?thesis by auto
    qed
  qed
qed

lemma init_dates_length:
  "init_dates c today n delta ds = Inr ds' \<Longrightarrow> length ds' = length ds + n"
proof (induction n arbitrary: delta ds)
  case 0
  then show ?case by simp
next
  case (Suc n)
  then show ?case
    by (auto split: sum.splits prod.splits)
qed

lemma skip_weekend_stop:
  "valid_date (today - delta) \<Longrightarrow> weekday (today - delta) < 5 \<Longrightarrow>
     skip_weekend today delta = Inr (today - delta, delta)"
  by (simp add: skip_weekend.simps [of today delta] date_sub_def)

lemma skip_weekend_step:
  "valid_date (today - delta) \<Longrightarrow> \<not> weekday (today - delta) < 5 \<Longrightarrow>
     skip_weekend today delta = skip_weekend today (delta + 1)"
  by (simp add: skip_weekend.simps [of today delta] date_sub_def)

lemma skip_weekend_total:
  assumes "valid_date (today - delta)" "valid_date (today - delta - 2)"
  shows "\<exists>d delta'. skip_weekend today delta = Inr (d, delta') \<and> delta' \<le> delta + 2"
proof -
  have v1: "valid_date (today - (delta + 1))"
    using assms by (auto simp: valid_date_def)
  have v2: "valid_date (today - (delta + 1 + 1))"
    using assms by (auto simp: valid_date_def)
  have w: "weekday (today - delta) < 5 \<or> weekday (today - (delta + 1)) < 5 \<or>
           weekday (today - (delta + 1 + 1)) < 5"
    unfolding weekday_def by presburger
  show ?thesis
  proof (cases "weekday (today - delta) < 5")
    case True
    from skip_weekend_stop [OF assms(1) True] show ?thesis by simp
  next
    case a: False
    note e1 = skip_weekend_step [OF assms(1) a]
    show ?thesis
    proof (cases "weekday (today - (delta + 1)) < 5")
      case True
      from skip_weekend_stop [OF v1 True] e1 show ?thesis by simp
    next
      case b: False
      note e2 = skip_weekend_step [OF v1 b]
      from a b w have c: "weekday (today - (delta + 1 + 1)) < 5" by simp
      from skip_weekend_stop [OF v2 c] e1 e2 show ?thesis by simp
    qed
  qed
qed

lemma init_dates_total:
  "1 \<le> delta \<Longrightarrow> today \<le> MAXORDINAL \<Longrightarrow> 3 * int n \<le> today - delta \<Longrightarrow>
     \<exists>ds'. init_dates c today n delta ds = Inr ds'"
proof (induction n arbitrary: delta ds)
  case 0
  then show ?case by simp
next
  case (Suc n)
  have "valid_date (today - delta)" "valid_date (today - delta - 2)"
    using Suc.prems by (auto simp: valid_date_def)
  from skip_weekend_total [OF this] obtain d delta' where
    sw: "skip_weekend today delta = Inr (d, delta')" and le: "delta' \<le> delta + 2"
    by blast
  from skip_weekend_Inr [OF sw] have ge: "delta \<le> delta'" by simp
  have "\<exists>ds'. init_dates c today n (delta' + 1) (ds @ [date_widget c d]) = Inr ds'"
    using Suc.prems le ge by (intro Suc.IH) auto
  with sw show ?case by simp
qed

lemma bounded_cnt_range: "1 \<le> bounded_cnt c \<and> bounded_cnt c \<le> 10"
  by (simp add: bounded_cnt_def)

lemma post_init_total:
  assumes "31 \<le> today" "today \<le> MAXORDINAL"
  shows "\<exists>dp. post_init today cnt0 = Inr dp"
proof -
  have "3 * int (nat (bounded_cnt cnt0)) \<le> today - 1"
    using assms bounded_cnt_range [of cnt0] by simp
  from init_dates_total [OF _ assms(2) this, of date_css "[]"]
  obtain ds where "init_dates date_css today (nat (bounded_cnt cnt0)) 1 [] = Inr ds" by auto
  then show ?thesis
    by (simp add: post_init_def)
qed

lemma preset_date_widget [simp]: "preset (date_widget c d) = d"
  by (simp add: preset_def date_widget_def)

lemma init_dates_spec:
  "init_dates c today n delta ds = Inr ds' \<Longrightarrow>
     \<exists>new. ds' = ds @ map (date_widget c) new \<and> length new = n \<and>
       (\<forall>d\<in>set new. d \<le> today - delta \<and> weekday d < 5 \<and> valid_date d) \<and>
       sorted_wrt (>) new \<and>
       (\<forall>d'. weekday d' < 5 \<and> d' \<le> today - delta \<and> (\<exists>x\<in>set new. x \<le> d') \<longrightarrow> d' \<in> set new)"
proof (induction n arbitrary: delta ds ds')
  case 0
  then show ?case by simp
next
  case (Suc n)
  from Suc.prems obtain d delta' where
    sw: "skip_weekend today delta = Inr (d, delta')" and
    rec: "init_dates c today n (delta' + 1) (ds @ [date_widget c d]) = Inr ds'"
    by (auto split: sum.splits prod.splits)
  from skip_weekend_Inr [OF sw] have
    d: "d = today - delta'" and le: "delta \<le> delta'" and wd: "weekday d < 5" and vd: "valid_date d" and
    gap: "\<forall>k. delta \<le> k \<and> k < delta' \<longrightarrow> \<not> weekday (today - k) < 5"
    by auto
  from Suc.IH [OF rec] obtain new where
    eq: "ds' = (ds @ [date_widget c d]) @ map (date_widget c) new" and
    len: "length new = n" and
    each: "\<forall>x\<in>set new. x \<le> today - (delta' + 1) \<and> weekday x < 5 \<and> valid_date x" and
    srt: "sorted_wrt (>) new" and
    full: "\<forall>d'. weekday d' < 5 \<and> d' \<le> today - (delta' + 1) \<and> (\<exists>x\<in>set new. x \<le> d') \<longrightarrow> d' \<in> set new"
    by blast
  have below: "\<forall>x\<in>set new. x < d"
    using each d by auto
  have 1: "ds' = ds @ map (date_widget c) (d # new)"
    using eq by simp
  have 2: "length (d # new) = Suc n"
    using len by simp
  have 3: "\<forall>x\<in>set (d # new). x \<le> today - delta \<and> weekday x < 5 \<and> valid_date x"
    using each d le wd vd by auto
  have 4: "sorted_wrt (>) (d # new)"
    using srt below by auto
  have 5: "d' \<in> set (d # new)"
    if h: "weekday d' < 5" "d' \<le> today - delta" "\<exists>x\<in>set (d # new). x \<le> d'" for d'
  proof -
    consider "d < d'" | "d' = d" | "d' < d" by linarith
    then show ?thesis
    proof cases
      case 1
      have "delta \<le> today - d' \<and> today - d' < delta'"
        using 1 h(2) d by auto
      with gap have "\<not> weekday (today - (today - d')) < 5" by blast
      with h(1) show ?thesis by simp
    next
      case 2
      then show ?thesis by simp
    next
      case 3
      from h(3) obtain x where x: "x \<in> set (d # new)" "x \<le> d'" by blast
      with 3 have "x \<in> set new" by auto
      with x(2) full h(1) 3 d have "d' \<in> set new" by auto
      then show ?thesis by simp
    qed
  qed
  from 1 2 3 4 5 show ?case by blast
qed



lemma post_init_dates:
  assumes "post_init today cnt0 = Inr dp"
  shows "int (length (map preset (f_dates dp))) = cnt dp \<and>
       f_today dp = today \<and> cnt dp = bounded_cnt cnt0 \<and>
       (\<forall>d\<in>set (map preset (f_dates dp)). d < today \<and> weekday d < 5 \<and> valid_date d) \<and>
       sorted_wrt (>) (map preset (f_dates dp)) \<and>
       (\<forall>d'. weekday d' < 5 \<and> d' < today \<and> (\<exists>x\<in>set (map preset (f_dates dp)). x \<le> d')
          \<longrightarrow> d' \<in> set (map preset (f_dates dp)))"
proof -
  from assms obtain ds where
    ds: "init_dates date_css today (nat (bounded_cnt cnt0)) 1 [] = Inr ds" and
    dp: "dp = \<lparr>cnt = bounded_cnt cnt0, f_date_css = date_css, f_time_css = time_css,
               f_dates = ds, f_today = today, f_time_range = time_widget time_css\<rparr>"
    by (auto simp: post_init_def split: sum.splits)
  from init_dates_spec [OF ds] obtain new where
    new: "ds = map (date_widget date_css) new" "length new = nat (bounded_cnt cnt0)"
      "\<forall>d\<in>set new. d \<le> today - 1 \<and> weekday d < 5 \<and> valid_date d"
      "sorted_wrt (>) new"
      "\<forall>d'. weekday d' < 5 \<and> d' \<le> today - 1 \<and> (\<exists>x\<in>set new. x \<le> d') \<longrightarrow> d' \<in> set new"
    by auto
  have m: "map preset (f_dates dp) = new"
    unfolding dp new(1) by (simp add: comp_def)
  have l: "int (length new) = cnt dp"
    unfolding dp using new(2) bounded_cnt_range [of cnt0] by simp
  have t: "f_today dp = today" "cnt dp = bounded_cnt cnt0"
    unfolding dp by simp_all
  have e: "d < today \<and> weekday d < 5 \<and> valid_date d" if "d \<in> set new" for d
    using new(3) that by fastforce
  have f: "d' \<in> set new" if "weekday d' < 5" "d' < today" "\<exists>x\<in>set new. x \<le> d'" for d'
  proof -
    from that(2) have "d' \<le> today - 1" by simp
    with new(5) that(1,3) show ?thesis by blast
  qed
  from e f have "(\<forall>d\<in>set new. d < today \<and> weekday d < 5 \<and> valid_date d) \<and>
      (\<forall>d'. weekday d' < 5 \<and> d' < today \<and> (\<exists>x\<in>set new. x \<le> d') \<longrightarrow> d' \<in> set new)"
    by blast
  with l t new(4) show ?thesis unfolding m by blast
qed

section \<open>DatePicker: the claims\<close>

text \<open>
  C6. For every construction of DatePicker the count of date selectors is bounded to
  1..10: a \<open>cnt\<close> argument below 1 or above 10 is replaced (by 5), and after
  \<^verbatim>\<open>__post_init__\<close> the object holds exactly \<open>cnt\<close> date selectors, between 1 and 10.
  The construction completes for every \<open>_today\<close> from 0001-01-31 on; before that,
  stepping back over the days raises OverflowError and no object is built.
\<close>

theorem C6_cnt_bounded:
  "(31 \<le> today \<and> today \<le> MAXORDINAL \<longrightarrow> (\<exists>dp. post_init today cnt0 = Inr dp)) \<and>
   (\<forall>dp. post_init today cnt0 = Inr dp \<longrightarrow>
      1 \<le> cnt dp \<and> cnt dp \<le> 10 \<and> int (length (f_dates dp)) = cnt dp \<and>
      cnt dp = (if cnt0 < 1 \<or> cnt0 > 10 then 5 else cnt0))"
proof (intro conjI impI allI)
  assume "31 \<le> today \<and> today \<le> MAXORDINAL"
  then show "\<exists>dp. post_init today cnt0 = Inr dp"
    using post_init_total by blast
next
  fix dp
  assume a: "post_init today cnt0 = Inr dp"
  from post_init_dates [OF a] have
    l: "int (length (map preset (f_dates dp))) = cnt dp" and c: "cnt dp = bounded_cnt cnt0"
    by blast+
  from c bounded_cnt_range [of cnt0] show "1 \<le> cnt dp" "cnt dp \<le> 10" by simp_all
  from l show "int (length (f_dates dp)) = cnt dp" by simp
  from c show "cnt dp = (if cnt0 < 1 \<or> cnt0 > 10 then 5 else cnt0)"
    by (simp add: bounded_cnt_def)
qed

theorem C6_cnt_bounded_witness:
  "(31::int) \<le> 737942 \<and> 737942 \<le> MAXORDINAL \<and>
   (\<exists>dp. post_init 737942 12 = Inr dp \<and> cnt dp = 5 \<and> length (f_dates dp) = 5)"
proof -
  have r: "(31::int) \<le> 737942 \<and> 737942 \<le> MAXORDINAL"
    by (simp add: MAXORDINAL_def)
  with C6_cnt_bounded [of 737942 12] obtain dp where dp: "post_init 737942 12 = Inr dp"
    by blast
  with C6_cnt_bounded [of 737942 12] have "cnt dp = 5 \<and> int (length (f_dates dp)) = cnt dp"
    by simp
  with dp r show ?thesis by auto
qed

text \<open>
  C7. Every date preset at construction is a business day: each of the \<open>cnt\<close> selectors
  holds a day strictly before \<open>_today\<close> whose weekday index is below 5, the selectors
  are in order of decreasing recency, and they are the most recent such days: every
  weekday before \<open>_today\<close> that is not older than a selected day is itself selected.
\<close>

theorem C7_presets_recent_weekdays:
  assumes "post_init today cnt0 = Inr dp"
  shows "int (length (f_dates dp)) = cnt dp \<and> f_today dp = today \<and>
     (\<forall>d\<in>set (map preset (f_dates dp)). d < today \<and> weekday d < 5) \<and>
     sorted_wrt (>) (map preset (f_dates dp)) \<and>
     (\<forall>d'. weekday d' < 5 \<and> d' < today \<and> (\<exists>x\<in>set (map preset (f_dates dp)). x \<le> d')
        \<longrightarrow> d' \<in> set (map preset (f_dates dp)))"
  using post_init_dates [OF assms] by simp

theorem C7_presets_recent_weekdays_witness:
  "\<exists>dp. post_init 737942 3 = Inr dp \<and>
     map preset (f_dates dp) = [737941, 737938, 737937] \<and>
     sorted_wrt (>) (map preset (f_dates dp)) \<and> f_today dp = 737942"
proof -
  have e: "post_init 737942 3 =
      Inr \<lparr>cnt = 3, f_date_css = date_css, f_time_css = time_css,
           f_dates = map (date_widget date_css) [737941, 737938, 737937],
           f_today = 737942, f_time_range = time_widget time_css\<rparr>"
    by code_simp
  have m: "map preset (map (date_widget date_css) [737941, 737938, 737937]) =
      [737941, 737938, 737937]"
    by simp
  from C7_presets_recent_weekdays [OF e] m e show ?thesis by auto
qed

section \<open>Properties of Intraday\<close>

lemma to_numeric_all_length:
  "to_numeric_all env xs = Inr ys \<Longrightarrow> length ys = length xs"
  by (induction xs arbitrary: ys) (auto split: sum.splits)

lemma to_numeric_all_hd:
  "to_numeric_all env (x # xs) = Inr (y # ys) \<Longrightarrow> to_numeric env x = Inr y"
  by (auto split: sum.splits)

lemma derive_length:
  "derive env measr ps = Inr qs \<Longrightarrow> length qs = length ps"
  by (auto simp: derive_def split: if_splits list.splits)

lemma retrieve_day_request_failed:
  "get_summaries env ric start end = Inl e \<Longrightarrow> retrieve_day env z ric start end measr = Inl e"
  by (simp add: retrieve_day_def)

lemma retrieve_day_empty:
  "get_summaries env ric start end = Inr response \<Longrightarrow> dropna env response = [] \<Longrightarrow>
     retrieve_day env z ric start end measr = Inr None"
  by (simp add: retrieve_day_def)

lemma each_date_spec:
  "each_date env tzname ric tr measr ds (w, ps, vs) = (w', Inr (ps', vs')) \<Longrightarrow>
     ps' = ps @ map fst (List.map_filter (returned_data env tzname ric tr measr) ds) \<and>
     vs' = vs @ map snd (List.map_filter (returned_data env tzname ric tr measr) ds) \<and>
     length (requests w') = length (requests w) + length ds"
proof (induction ds arbitrary: w ps vs)
  case Nil
  then show ?case by (simp add: List.map_filter_simps)
next
  case (Cons d ds)
  from Cons.prems obtain start "end" where win: "window env tzname d tr = Inr (start, end)"
    by (cases "window env tzname d tr") auto
  show ?case
  proof (cases "retrieve_day env (tz_name tzname) ric start end measr")
    case (Inl e)
    with win have rd: "returned_data env tzname ric tr measr d = None"
      by (simp add: returned_data_def)
    from Cons.prems win Inl have
      "each_date env tzname ric tr measr ds
         (print (IssueRetrieving ric start end e) (send (ric, start, end) w), ps, vs) =
       (w', Inr (ps', vs'))"
      by simp
    from Cons.IH [OF this] rd show ?thesis
      by (simp add: List.map_filter_simps print_def send_def)
  next
    case (Inr r)
    show ?thesis
    proof (cases r)
      case None
      with win Inr have rd: "returned_data env tzname ric tr measr d = None"
        by (simp add: returned_data_def)
      from Cons.prems win Inr None have
        "each_date env tzname ric tr measr ds
           (print (NoDataReturned ric start end) (send (ric, start, end) w), ps, vs) =
         (w', Inr (ps', vs'))"
        by simp
      from Cons.IH [OF this] rd show ?thesis
        by (simp add: List.map_filter_simps print_def send_def)
    next
      case (Some pv)
      obtain p v where pv: "pv = (p, v)" by (cases pv)
      with win Inr Some have rd: "returned_data env tzname ric tr measr d = Some (p, v)"
        by (simp add: returned_data_def)
      from Cons.prems win Inr Some pv have
        "each_date env tzname ric tr measr ds (send (ric, start, end) w, ps @ [p], vs @ [v]) =
         (w', Inr (ps', vs'))"
        by simp
      from Cons.IH [OF this] rd show ?thesis
        by (simp add: List.map_filter_simps send_def)
    qed
  qed
qed

lemma try_timezone_keeps_tables:
  "f_prices (fst (try_timezone env s ric)) = f_prices s \<and>
   f_volumes (fst (try_timezone env s ric)) = f_volumes s"
  by (simp add: try_timezone_def split: sum.splits)

lemma try_timezone_outcome:
  "snd (try_timezone env s ric) = snd (try_timezone env s' ric)"
  by (simp add: try_timezone_def split: sum.splits)

lemma try_timezone_tz:
  "snd (snd (try_timezone env s ric)) \<Longrightarrow>
     f_tz (fst (try_timezone env s ric)) = f_tz (fst (try_timezone env s' ric))"
  by (auto simp: try_timezone_def split: sum.splits if_splits)

lemma get_timezone_fst: "fst (get_timezone env s w ric) = fst (try_timezone env s ric)"
  by (simp add: get_timezone_def Let_def split: prod.splits)

lemma get_timezone_success:
  "snd (snd (get_timezone env s w ric)) = timezone_found env ric"
proof -
  obtain s' r b where t: "try_timezone env s ric = (s', r, b)"
    by (cases "try_timezone env s ric")
  from try_timezone_outcome [of env s ric new_Intraday] t
  have "snd (try_timezone env new_Intraday ric) = (r, b)" by simp
  then have "timezone_found env ric = b"
    by (simp add: timezone_found_def)
  with t show ?thesis
    by (simp add: get_timezone_def Let_def)
qed

lemma each_date_result:
  "snd (each_date env tzname ric tr measr ds (w1, ps, vs)) =
   snd (each_date env tzname ric tr measr ds (w2, ps, vs))"
proof (induction ds arbitrary: w1 w2 ps vs)
  case Nil
  then show ?case by simp
next
  case (Cons d ds)
  show ?case
  proof (cases "window env tzname d tr")
    case (Inl e)
    then show ?thesis by simp
  next
    case (Inr se)
    obtain start "end" where se: "se = (start, end)" by (cases se)
    show ?thesis
    proof (cases "retrieve_day env (tz_name tzname) ric start end measr")
      case (Inl e)
      with Inr se show ?thesis using Cons.IH by simp
    next
      case r: (Inr r)
      show ?thesis
      proof (cases r)
        case None
        with Inr se r show ?thesis using Cons.IH by simp
      next
        case (Some pv)
        obtain p v where "pv = (p, v)" by (cases pv)
        with Some Inr se r show ?thesis using Cons.IH by simp
      qed
    qed
  qed
qed

lemma organize_tables:
  assumes "f_prices s1 = f_prices s2" "f_volumes s1 = f_volumes s2"
  shows "f_prices (fst (organize env s1 w1 ps vs)) = f_prices (fst (organize env s2 w2 ps vs)) \<and>
         f_volumes (fst (organize env s1 w1 ps vs)) = f_volumes (fst (organize env s2 w2 ps vs)) \<and>
         snd (snd (organize env s1 w1 ps vs)) = snd (snd (organize env s2 w2 ps vs))"
  using assms by (simp add: organize_def split: sum.splits)

lemma demo_window:
  "window demo_env (Value ''America/New_York'') 737942 demo_range =
     Inr (63758240760, 63758264160)"
  by (simp add: window_def demo_env_def new_york_def to_utc_def wall_clock_def demo_range_def
      valid_date_def MAXORDINAL_def)

lemma demo_window_next:
  "window demo_env (Value ''America/New_York'') 737943 demo_range =
     Inr (63758327160, 63758350560)"
  by (simp add: window_def demo_env_def new_york_def to_utc_def wall_clock_def demo_range_def
      valid_date_def MAXORDINAL_def)

lemma demo_call:
  "calculate_measures demo_env new_Intraday quiet ''IBM.N'' (Single 737942) demo_range None =
     (\<lparr>f_tz = Value ''America/New_York'',
       f_label = Value ''INTL BUS MACHINE (Timezone: America/New_York)'',
       f_prices = Value \<lparr>columns = [737942],
                         trows = [(37560, [100]), (37620, [300]), (37680, [200])]\<rparr>,
       f_volumes = Value \<lparr>columns = [737942],
                          trows = [(37560, [10]), (37620, [20]), (37680, [30])]\<rparr>\<rparr>,
      \<lparr>printed = [Processing, Done],
       requests = [(''IBM.N'', 63758240760, 63758264160)], charts = []\<rparr>,
      Inr ())"
  by code_simp

lemma window_offset:
  assumes "window env (Value z) d tr = Inr (start, end)"
  shows "\<exists>tz. pytz_timezone env z = Inr tz \<and>
           start = wall_clock d (tr ! 0) - default_utcoffset tz \<and>
           end = wall_clock d (tr ! 1) - default_utcoffset tz"
  using assms
  by (auto simp: window_def to_utc_def Let_def split: sum.splits if_splits)

lemma retrieve_day_index:
  assumes "retrieve_day env z ric start end measr = Inr (Some (price_df, volume_df))"
  shows "\<exists>tz response.
           pytz_timezone env z = Inr tz \<and> get_summaries env ric start end = Inr response \<and>
           dropna env response \<noteq> [] \<and>
           map fst (entries price_df) = map (\<lambda>b. local_time tz (at b)) (dropna env response) \<and>
           map fst (entries volume_df) = map (\<lambda>b. local_time tz (at b)) (dropna env response) \<and>
           label price_df = local_date tz (Max (at ` set (dropna env response))) \<and>
           label volume_df = label price_df"
proof -
  from assms obtain response where g: "get_summaries env ric start end = Inr response"
    by (cases "get_summaries env ric start end") (auto simp: retrieve_day_def)
  from assms g obtain b bs where d: "dropna env response = b # bs"
    by (cases "dropna env response") (auto simp: retrieve_day_def)
  from assms g d obtain tz where z: "pytz_timezone env z = Inr tz"
    by (cases "pytz_timezone env z") (auto simp: retrieve_day_def)
  from assms g d z obtain numeric where
    n: "to_numeric_all env (map trdprc_1 (b # bs)) = Inr numeric"
    by (cases "to_numeric_all env (map trdprc_1 (b # bs))") (auto simp: retrieve_day_def)
  from assms g d z n obtain ps where p: "derive env measr numeric = Inr ps"
    by (cases "derive env measr numeric") (auto simp: retrieve_day_def)
  have len: "length ps = Suc (length bs)"
    using derive_length [OF p] to_numeric_all_length [OF n] by simp
  have m: "fold max (map at bs) (at b) = Max (at ` set (b # bs))"
    using Max.set_eq_fold [of "at b" "map at bs"] by simp
  from assms g d z n p have
    pd: "price_df = \<lparr>label = local_date tz (fold max (map at bs) (at b)),
                     entries = zip (map (\<lambda>r. local_time tz (at r)) (b # bs)) ps\<rparr>" and
    vd: "volume_df = \<lparr>label = local_date tz (fold max (map at bs) (at b)),
                      entries = zip (map (\<lambda>r. local_time tz (at r)) (b # bs))
                                    (map acvol_uns (b # bs))\<rparr>"
    by (simp_all add: retrieve_day_def Let_def)
  have 1: "map fst (entries price_df) = map (\<lambda>b. local_time tz (at b)) (b # bs)"
    unfolding pd using len by simp
  have 2: "map fst (entries volume_df) = map (\<lambda>b. local_time tz (at b)) (b # bs)"
    unfolding vd by simp
  have 3: "label price_df = local_date tz (Max (at ` set (b # bs)))"
    unfolding pd using m by simp
  have 4: "label volume_df = label price_df"
    unfolding pd vd by simp
  from z g d 1 2 3 4 show ?thesis by auto
qed

section \<open>Intraday: the claims\<close>

text \<open>
  C1. In \<^verbatim>\<open>calculate_measures\<close>, for a day whose request returns bars (\<open>b # bs\<close> after
  \<^verbatim>\<open>dropna()\<close>) with numeric prices \<open>p0 # ps\<close>, the day's price column is: for measure
  \<^verbatim>\<open>'net'\<close> each price minus the first observed price \<open>p0\<close> of that day, for \<^verbatim>\<open>'pct'\<close>
  that difference divided by \<open>p0\<close>, and for any other measure the prices as they are.
  Subtraction and division are those of the cell values (\<open>minus_v\<close>, \<open>div_v\<close>).
\<close>

theorem C1_measure_transform:
  assumes "get_summaries env ric start end = Inr response"
    and "dropna env response = b # bs"
    and "pytz_timezone env z = Inr tz"
    and "to_numeric_all env (map trdprc_1 (b # bs)) = Inr (p0 # ps)"
  shows "\<exists>price_df volume_df.
      retrieve_day env z ric start end measr = Inr (Some (price_df, volume_df)) \<and>
      to_numeric env (trdprc_1 b) = Inr p0 \<and>
      map snd (entries price_df) =
        (if measr = Some ''net'' then map (\<lambda>p. minus_v env p p0) (p0 # ps)
         else if measr = Some ''pct'' then map (\<lambda>p. div_v env (minus_v env p p0) p0) (p0 # ps)
         else p0 # ps)"
proof -
  from assms(4) have len: "length ps = length bs"
    using to_numeric_all_length [OF assms(4)] by simp
  from assms(4) have p0: "to_numeric env (trdprc_1 b) = Inr p0"
    by (auto split: sum.splits)
  define out where "out =
        (if measr = Some ''net'' then map (\<lambda>p. minus_v env p p0) (p0 # ps)
         else if measr = Some ''pct'' then map (\<lambda>p. div_v env (minus_v env p p0) p0) (p0 # ps)
         else p0 # ps)"
  have d: "derive env measr (p0 # ps) = Inr out"
    by (simp add: derive_def out_def)
  have lo: "length out = Suc (length bs)"
    using len by (simp add: out_def)
  define times where "times = map (\<lambda>r. local_time tz (at r)) (b # bs)"
  have r: "retrieve_day env z ric start end measr =
      Inr (Some (\<lparr>label = local_date tz (fold max (map at bs) (at b)), entries = zip times out\<rparr>,
                 \<lparr>label = local_date tz (fold max (map at bs) (at b)),
                  entries = zip times (map acvol_uns (b # bs))\<rparr>))"
    unfolding retrieve_day_def times_def using assms d by (simp add: Let_def)
  have "map snd (zip times out) = out"
    using lo by (simp add: times_def)
  with r p0 show ?thesis unfolding out_def by simp
qed

theorem C1_measure_transform_witness:
  "\<exists>price_df volume_df.
      retrieve_day demo_env ''America/New_York'' ''IBM.N'' 63758240760 63758264160 (Some ''pct'') =
        Inr (Some (price_df, volume_df)) \<and>
      map snd (entries price_df) = [0, 2, 1]"
proof -
  have g: "get_summaries demo_env ''IBM.N'' 63758240760 63758264160 =
      Inr [\<lparr>at = 63758240760, trdprc_1 = 100, acvol_uns = 10\<rparr>,
           \<lparr>at = 63758240820, trdprc_1 = 300, acvol_uns = 20\<rparr>,
           \<lparr>at = 63758240880, trdprc_1 = 200, acvol_uns = 30\<rparr>]"
    by (simp add: demo_env_def)
  have d: "dropna demo_env
      [\<lparr>at = 63758240760, trdprc_1 = 100, acvol_uns = 10\<rparr>,
       \<lparr>at = 63758240820, trdprc_1 = 300, acvol_uns = 20\<rparr>,
       \<lparr>at = 63758240880, trdprc_1 = 200, acvol_uns = 30\<rparr>] =
      \<lparr>at = 63758240760, trdprc_1 = 100, acvol_uns = 10\<rparr> #
      [\<lparr>at = 63758240820, trdprc_1 = 300, acvol_uns = 20\<rparr>,
       \<lparr>at = 63758240880, trdprc_1 = 200, acvol_uns = 30\<rparr>]"
    by (simp add: dropna_def demo_env_def)
  have z: "pytz_timezone demo_env ''America/New_York'' = Inr new_york"
    by (simp add: demo_env_def)
  have n: "to_numeric_all demo_env (map trdprc_1
      (\<lparr>at = 63758240760, trdprc_1 = 100, acvol_uns = 10\<rparr> #
       [\<lparr>at = 63758240820, trdprc_1 = 300, acvol_uns = 20\<rparr>,
        \<lparr>at = 63758240880, trdprc_1 = 200, acvol_uns = 30\<rparr>])) = Inr (100 # [300, 200])"
    by (simp add: demo_env_def)
  from C1_measure_transform [OF g d z n, of "Some ''pct''"] show ?thesis
    by (simp add: demo_env_def)
qed

text \<open>
  C2. The request window is meant to be the selected local start and end times in the
  instrument's trading timezone, converted to UTC. The code attaches the pytz zone
  through \<^verbatim>\<open>tzinfo=\<close> of the \<^verbatim>\<open>datetime\<close> constructor, so the conversion uses the zone
  object's own offset (\<open>window_offset\<close>), not the offset in force on that date; the
  returned timestamps are converted with the offset in force (\<open>retrieve_day_index\<close>).
  For the example zone and 2021-06-01, 09:30 to 16:00, the request sent starts at the
  instant that reads 10:26 on the zone's clock; the instant that reads 09:30 there is
  3360 seconds earlier.
\<close>

theorem C2_window_uses_default_offset:
  "requests (fst (snd (calculate_measures demo_env new_Intraday quiet ''IBM.N'' (Single 737942)
      demo_range None))) = [(''IBM.N'', 63758240760, 63758264160)] \<and>
   local_date new_york 63758240760 = 737942 \<and> local_time new_york 63758240760 = 10 * 3600 + 26 * 60 \<and>
   local_date new_york 63758237400 = 737942 \<and> local_time new_york 63758237400 = 9 * 3600 + 30 * 60"
  by (simp add: demo_call local_date_def local_time_def new_york_def)

text \<open>
  C3. A failure while retrieving the data of one date, an exception of the request or
  a response that is empty after \<^verbatim>\<open>dropna()\<close>, is handled inside the loop body: one
  request was sent, one line is printed, the lists \<^verbatim>\<open>prices\<close> and \<^verbatim>\<open>volumes\<close> are left as
  they were, and the loop goes on with the remaining dates. No request is repeated:
  a loop that ends normally has sent exactly one request per date.
\<close>

theorem C3_failed_day_skipped:
  assumes "window env tzname d tr = Inr (start, end)"
  shows "(\<forall>e. get_summaries env ric start end = Inl e \<longrightarrow>
            each_date env tzname ric tr measr (d # ds) (w, ps, vs) =
            each_date env tzname ric tr measr ds
              (print (IssueRetrieving ric start end e) (send (ric, start, end) w), ps, vs)) \<and>
         (\<forall>response. get_summaries env ric start end = Inr response \<and> dropna env response = [] \<longrightarrow>
            each_date env tzname ric tr measr (d # ds) (w, ps, vs) =
            each_date env tzname ric tr measr ds
              (print (NoDataReturned ric start end) (send (ric, start, end) w), ps, vs)) \<and>
         (\<forall>w' ps' vs'. each_date env tzname ric tr measr (d # ds) (w, ps, vs) = (w', Inr (ps', vs')) \<longrightarrow>
            length (requests w') = length (requests w) + length (d # ds))"
proof (intro conjI allI impI)
  fix e
  assume "get_summaries env ric start end = Inl e"
  then show "each_date env tzname ric tr measr (d # ds) (w, ps, vs) =
      each_date env tzname ric tr measr ds
        (print (IssueRetrieving ric start end e) (send (ric, start, end) w), ps, vs)"
    using assms by (simp add: retrieve_day_request_failed)
next
  fix response
  assume "get_summaries env ric start end = Inr response \<and> dropna env response = []"
  then show "each_date env tzname ric tr measr (d # ds) (w, ps, vs) =
      each_date env tzname ric tr measr ds
        (print (NoDataReturned ric start end) (send (ric, start, end) w), ps, vs)"
    using assms by (simp add: retrieve_day_empty)
next
  fix w' ps' vs'
  assume "each_date env tzname ric tr measr (d # ds) (w, ps, vs) = (w', Inr (ps', vs'))"
  from each_date_spec [OF this]
  show "length (requests w') = length (requests w) + length (d # ds)" by blast
qed

theorem C3_failed_day_skipped_witness:
  "window demo_env (Value ''America/New_York'') 737943 demo_range =
     Inr (63758327160, 63758350560) \<and>
   get_summaries demo_env ''IBM.N'' 63758327160 63758350560 = Inl (ServiceError ''timeout'') \<and>
   each_date demo_env (Value ''America/New_York'') ''IBM.N'' demo_range None [737943]
       (quiet, [], []) =
     (print (IssueRetrieving ''IBM.N'' 63758327160 63758350560 (ServiceError ''timeout''))
        (send (''IBM.N'', 63758327160, 63758350560) quiet), Inr ([], []))"
proof -
  have g: "get_summaries demo_env ''IBM.N'' 63758327160 63758350560 = Inl (ServiceError ''timeout'')"
    by (simp add: demo_env_def)
  from C3_failed_day_skipped [OF demo_window_next, of "''IBM.N''" None "[]" quiet "[]" "[]"] g
  have "each_date demo_env (Value ''America/New_York'') ''IBM.N'' demo_range None [737943]
       (quiet, [], []) =
     each_date demo_env (Value ''America/New_York'') ''IBM.N'' demo_range None []
       (print (IssueRetrieving ''IBM.N'' 63758327160 63758350560 (ServiceError ''timeout''))
        (send (''IBM.N'', 63758327160, 63758350560) quiet), [], [])"
    by blast
  with demo_window_next g show ?thesis by simp
qed

text \<open>
  C8. Called with an empty list of dates (a single date is wrapped into a one-element
  list first, so it is never empty) or with a time range whose length is not 2,
  \<^verbatim>\<open>calculate_measures\<close> returns at once: the object, \<^verbatim>\<open>_prices\<close> and \<^verbatim>\<open>_volumes\<close>
  included, is unchanged, nothing is printed and no request is sent.
\<close>

theorem C8_guard_returns_unchanged:
  assumes "as_list dates_in = [] \<or> length tr \<noteq> 2"
  shows "calculate_measures env self w ric dates_in tr measr = (self, w, Inr ())"
  using assms by (auto simp: calculate_measures_def)

theorem C8_guard_returns_unchanged_witness:
  "calculate_measures demo_env new_Intraday quiet ''IBM.N'' (Several []) demo_range None =
     (new_Intraday, quiet, Inr ()) \<and>
   calculate_measures demo_env new_Intraday quiet ''IBM.N'' (Single 737942) (tl demo_range) None =
     (new_Intraday, quiet, Inr ())"
proof -
  have a: "as_list (Several []) = [] \<or> length demo_range \<noteq> 2"
    by (simp add: as_list_def)
  have b: "as_list (Single 737942) = [] \<or> length (tl demo_range) \<noteq> 2"
    by (simp add: demo_range_def)
  from C8_guard_returns_unchanged [OF a, where env = demo_env and self = new_Intraday]
    C8_guard_returns_unchanged [OF b, where env = demo_env and self = new_Intraday]
  show ?thesis by simp
qed

text \<open>
  C10. \<^verbatim>\<open>plot\<close> with \<^verbatim>\<open>title\<close> equal to \<^verbatim>\<open>None\<close>, on an object that holds a price table,
  raises NameError: the fallback \<^verbatim>\<open>title = _label\<close> reads an undefined name, and
  no chart is drawn.
\<close>

theorem C10_plot_none_title_raises:
  assumes "f_prices self = Value p"
  shows "plot self w None = (w, Inl NameError)"
  using assms by (simp add: plot_def)

theorem C10_plot_none_title_raises_witness:
  "plot (fst (calculate_measures demo_env new_Intraday quiet ''IBM.N'' (Single 737942)
            demo_range None)) quiet None = (quiet, Inl NameError)"
proof -
  have "f_prices (fst (calculate_measures demo_env new_Intraday quiet ''IBM.N'' (Single 737942)
            demo_range None)) =
        Value \<lparr>columns = [737942], trows = [(37560, [100]), (37620, [300]), (37680, [200])]\<rparr>"
    by (simp add: demo_call)
  from C10_plot_none_title_raises [OF this] show ?thesis .
qed

section \<open>Properties of the tables\<close>

lemma union_index_set: "set (union_index seen ts) = set seen \<union> set ts"
  by (induction ts arbitrary: seen) auto

lemma whole_row_length: "whole_row env r = Some vs \<Longrightarrow> length vs = length r"
  by (induction r arbitrary: vs) (auto split: option.splits if_splits)

lemma dropna_table_columns [simp]: "columns (dropna_table env t) = columns t"
  by (simp add: dropna_table_def)

lemma concat_axis1_spec:
  assumes "concat_axis1 frames = Inr t"
  shows "columns t = map label frames \<and> frames \<noteq> [] \<and>
         (\<forall>(i, r)\<in>set (trows t). length r = length frames \<and>
            (\<exists>c\<in>set frames. i \<in> fst ` set (entries c)))"
proof (cases frames)
  case Nil
  with assms show ?thesis by (simp add: concat_axis1_def)
next
  case (Cons f fs)
  define first where "first = map fst (entries f)"
  define others where "others = map (\<lambda>c. map fst (entries c)) fs"
  have unf: "concat_axis1 frames =
      (if \<forall>i \<in> set others. i = first then
            Inr \<lparr>columns = map label frames,
                 trows = map (\<lambda>k. (first ! k, map (\<lambda>c. Some (snd (entries c ! k))) frames))
                           [0 ..< length first]\<rparr>
          else if \<exists>i \<in> set (first # others). \<not> distinct i then Inl InvalidIndexError
          else
            Inr \<lparr>columns = map label frames,
                 trows = map (\<lambda>t. (t, map (\<lambda>c. map_of (entries c) t) frames))
                           (union_index [] (concat (first # others)))\<rparr>)"
    unfolding concat_axis1_def first_def others_def Cons by simp
  have keys: "set (concat (first # others)) = (\<Union>c\<in>set frames. fst ` set (entries c))"
    unfolding first_def others_def Cons by auto
  have f_in: "set first \<subseteq> (\<Union>c\<in>set frames. fst ` set (entries c))"
    unfolding first_def Cons by auto
  show ?thesis
  proof (cases "\<forall>i \<in> set others. i = first")
    case True
    with assms unf have t: "t = \<lparr>columns = map label frames,
                 trows = map (\<lambda>k. (first ! k, map (\<lambda>c. Some (snd (entries c ! k))) frames))
                           [0 ..< length first]\<rparr>"
      by simp
    have "length r = length frames \<and> (\<exists>c\<in>set frames. i \<in> fst ` set (entries c))"
      if "(i, r) \<in> set (trows t)" for i r
    proof -
      from that t obtain k where k: "k < length first" "i = first ! k"
        "r = map (\<lambda>c. Some (snd (entries c ! k))) frames"
        by auto
      from k(1,2) have "i \<in> set first" by simp
      with f_in have "\<exists>c\<in>set frames. i \<in> fst ` set (entries c)" by blast
      with k(3) show ?thesis by simp
    qed
    with t Cons show ?thesis by auto
  next
    case False
    with assms unf have t: "t = \<lparr>columns = map label frames,
                 trows = map (\<lambda>t. (t, map (\<lambda>c. map_of (entries c) t) frames))
                           (union_index [] (concat (first # others)))\<rparr>"
      by (auto split: if_splits)
    have "length r = length frames \<and> (\<exists>c\<in>set frames. i \<in> fst ` set (entries c))"
      if "(i, r) \<in> set (trows t)" for i r
    proof -
      from that t have "i \<in> set (union_index [] (concat (first # others)))"
        "r = map (\<lambda>c. map_of (entries c) i) frames"
        by auto
      then have "r = map (\<lambda>c. map_of (entries c) i) frames"
        "i \<in> (\<Union>c\<in>set frames. fst ` set (entries c))"
        unfolding union_index_set keys by simp_all
      then have "length r = length frames" "\<exists>c\<in>set frames. i \<in> fst ` set (entries c)"
        by (simp, blast)
      then show ?thesis by simp
    qed
    with t Cons show ?thesis by auto
  qed
qed

lemma returned_data_Some:
  assumes "returned_data env tzname ric tr measr d = Some (p, v)"
  shows "\<exists>z start end. tzname = Value z \<and> window env tzname d tr = Inr (start, end) \<and>
           retrieve_day env z ric start end measr = Inr (Some (p, v))"
proof -
  from assms obtain start "end" where w: "window env tzname d tr = Inr (start, end)"
    by (cases "window env tzname d tr") (auto simp: returned_data_def)
  then obtain z where z: "tzname = Value z"
    by (cases tzname) (auto simp: window_def)
  from assms w z have "retrieve_day env z ric start end measr = Inr (Some (p, v))"
    by (cases "retrieve_day env z ric start end measr") (auto simp: returned_data_def tz_name_def)
  with w z show ?thesis by blast
qed

lemma local_time_of_day: "time_of_day (local_time tz t)"
  by (simp add: time_of_day_def local_time_def)

lemma returned_data_times:
  assumes "returned_data env tzname ric tr measr d = Some (p, v)"
  shows "(\<forall>i\<in>fst ` set (entries p). time_of_day i) \<and> (\<forall>i\<in>fst ` set (entries v). time_of_day i)"
proof -
  from returned_data_Some [OF assms] obtain z start "end" where
    "retrieve_day env z ric start end measr = Inr (Some (p, v))" by blast
  from retrieve_day_index [OF this] obtain tz response where
    a: "map fst (entries p) = map (\<lambda>b. local_time tz (at b)) (dropna env response)" and
    b: "map fst (entries v) = map (\<lambda>b. local_time tz (at b)) (dropna env response)"
    by blast
  have "set (map fst (entries p)) = (\<lambda>b. local_time tz (at b)) ` set (dropna env response)"
    unfolding a by simp
  moreover have "set (map fst (entries v)) = (\<lambda>b. local_time tz (at b)) ` set (dropna env response)"
    unfolding b by simp
  ultimately show ?thesis
    using local_time_of_day by auto
qed

lemma organize_result:
  assumes "organize env s w ps vs = (s', w', Inr ())" "f_prices s = PyNone" "prices s' = Some tp"
  shows "\<exists>p v. concat_axis1 ps = Inr p \<and> concat_axis1 vs = Inr v \<and>
           tp = dropna_table env p \<and> volumes s' = Some (dropna_table env v) \<and> f_tz s' = f_tz s"
  using assms
  by (auto simp: organize_def prices_def volumes_def split: if_splits sum.splits attr.splits)

lemma calculate_measures_unfold:
  assumes "as_list dates_in \<noteq> []" "length tr = 2"
  shows "calculate_measures env self w ric dates_in tr measr =
     (case get_timezone env (self\<lparr>f_prices := PyNone, f_volumes := PyNone\<rparr>)
                (print Processing w) ric of
           (self', w', success) \<Rightarrow>
             if success then
               (case each_date env (f_tz self') ric tr measr (as_list dates_in) (w', [], []) of
                  (w'', Inl e) \<Rightarrow> (self', w'', Inl e)
                | (w'', Inr (ps, vs)) \<Rightarrow> organize env self' w'' ps vs)
             else organize env self' w' [] [])"
  using assms by (simp add: calculate_measures_def)

lemma get_timezone_tables:
  "get_timezone env s w ric = (s', w', ok) \<Longrightarrow>
     f_prices s' = f_prices s \<and> f_volumes s' = f_volumes s \<and> ok = timezone_found env ric"
  using get_timezone_fst [of env s w ric] get_timezone_success [of env s w ric]
    try_timezone_keeps_tables [of env s ric]
  by simp

lemma organize_empty:
  "f_prices s = PyNone \<Longrightarrow> f_volumes s = PyNone \<Longrightarrow>
     prices (fst (organize env s w [] vs)) = None \<and> volumes (fst (organize env s w [] vs)) = None"
  by (simp add: organize_def prices_def volumes_def)

lemma map_filter_mem:
  "x \<in> set (List.map_filter f xs) \<longleftrightarrow> (\<exists>y\<in>set xs. f y = Some x)"
  by (auto simp: List.map_filter_def intro: rev_image_eqI)

lemma demo_call_failed:
  "calculate_measures demo_env new_Intraday quiet ''IBM.N'' (Several [737943]) demo_range None =
     (\<lparr>f_tz = Value ''America/New_York'',
       f_label = Value ''INTL BUS MACHINE (Timezone: America/New_York)'',
       f_prices = PyNone, f_volumes = PyNone\<rparr>,
      \<lparr>printed = [Processing,
                  IssueRetrieving ''IBM.N'' 63758327160 63758350560 (ServiceError ''timeout''),
                  FailedToGenerate, Done],
       requests = [(''IBM.N'', 63758327160, 63758350560)], charts = []\<rparr>,
      Inr ())"
  by code_simp

lemma demo_no_data:
  "returned_data demo_env (Value ''America/New_York'') ''IBM.N'' demo_range None 737943 = None"
proof -
  have "get_summaries demo_env ''IBM.N'' 63758327160 63758350560 = Inl (ServiceError ''timeout'')"
    by (simp add: demo_env_def)
  from retrieve_day_request_failed [OF this] show ?thesis
    by (simp add: returned_data_def demo_window_next)
qed

lemma whole_row_spec:
  "whole_row env r = Some vs \<longleftrightarrow> r = map Some vs \<and> (\<forall>v\<in>set vs. \<not> isna env v)"
proof (induction r arbitrary: vs)
  case Nil
  then show ?case by auto
next
  case (Cons c cs)
  show ?case
  proof (cases c)
    case None
    then show ?thesis by (cases vs) auto
  next
    case (Some v)
    show ?thesis
    proof (cases vs)
      case Nil
      with Some show ?thesis by (auto split: option.splits)
    next
      case (Cons u us)
      with Some Cons.IH [of us] show ?thesis by (auto split: option.splits)
    qed
  qed
qed

lemma whole_row_map_Some:
  "whole_row env (map (\<lambda>c. Some (f c)) cs) =
     (if \<exists>c\<in>set cs. isna env (f c) then None else Some (map f cs))"
  by (induction cs) auto

lemma concat_axis1_same_index:
  assumes "frames \<noteq> []" "\<forall>c\<in>set frames. map fst (entries c) = idx"
  shows "concat_axis1 frames =
     Inr \<lparr>columns = map label frames,
          trows = map (\<lambda>k. (idx ! k, map (\<lambda>c. Some (snd (entries c ! k))) frames))
                    [0 ..< length idx]\<rparr>"
proof -
  from assms(1) obtain f fs where fr: "frames = f # fs" by (cases frames) auto
  with assms(2) have 1: "map fst (entries f) = idx"
    and 2: "\<forall>i\<in>set (map (\<lambda>c. map fst (entries c)) fs). i = idx"
    by auto
  show ?thesis
    unfolding concat_axis1_def fr using 1 2 by simp
qed

lemma dropna_table_same_index:
  "dropna_table env
     \<lparr>columns = cs,
      trows = map (\<lambda>k. (idx ! k, map (\<lambda>c. Some (snd (entries c ! k))) frames)) ks\<rparr> =
   \<lparr>columns = cs,
    trows = List.map_filter
      (\<lambda>k. if \<exists>c\<in>set frames. isna env (snd (entries c ! k)) then None
           else Some (idx ! k, map (\<lambda>c. snd (entries c ! k)) frames)) ks\<rparr>"
proof -
  have "List.map_filter
          (\<lambda>(i, r). case whole_row env r of None \<Rightarrow> None | Some vs \<Rightarrow> Some (i, vs))
          (map (\<lambda>k. (idx ! k, map (\<lambda>c. Some (snd (entries c ! k))) frames)) ks) =
        List.map_filter
          (\<lambda>k. if \<exists>c\<in>set frames. isna env (snd (entries c ! k)) then None
               else Some (idx ! k, map (\<lambda>c. snd (entries c ! k)) frames)) ks"
    by (induction ks) (simp_all add: List.map_filter_simps whole_row_map_Some)
  then show ?thesis by (simp add: dropna_table_def)
qed

lemma concat_axis1_cells:
  assumes "concat_axis1 frames = Inr t" "(i, r) \<in> set (trows t)" "j < length frames" "r ! j = Some v"
  shows "(i, v) \<in> set (entries (frames ! j))"
proof -
  from assms(1) obtain f fs where fr: "frames = f # fs"
    by (cases frames) (auto simp: concat_axis1_def)
  define first where "first = map fst (entries f)"
  define others where "others = map (\<lambda>c. map fst (entries c)) fs"
  have unf: "concat_axis1 frames =
      (if \<forall>i \<in> set others. i = first then
            Inr \<lparr>columns = map label frames,
                 trows = map (\<lambda>k. (first ! k, map (\<lambda>c. Some (snd (entries c ! k))) frames))
                           [0 ..< length first]\<rparr>
          else if \<exists>i \<in> set (first # others). \<not> distinct i then Inl InvalidIndexError
          else
            Inr \<lparr>columns = map label frames,
                 trows = map (\<lambda>t. (t, map (\<lambda>c. map_of (entries c) t) frames))
                           (union_index [] (concat (first # others)))\<rparr>)"
    unfolding concat_axis1_def first_def others_def fr by simp
  show ?thesis
  proof (cases "\<forall>i \<in> set others. i = first")
    case True
    then have same: "map fst (entries c) = first" if "c \<in> set frames" for c
      using that unfolding fr first_def others_def by auto
    from True assms(1) unf have t: "t = \<lparr>columns = map label frames,
                 trows = map (\<lambda>k. (first ! k, map (\<lambda>c. Some (snd (entries c ! k))) frames))
                           [0 ..< length first]\<rparr>"
      by simp
    from assms(2) t obtain k where k: "k < length first" "i = first ! k"
      "r = map (\<lambda>c. Some (snd (entries c ! k))) frames"
      by auto
    let ?c = "frames ! j"
    have c: "?c \<in> set frames" using assms(3) by simp
    from same [OF c] have m: "map fst (entries ?c) = first" .
    then have len: "length (entries ?c) = length first"
      by (metis length_map)
    from k(3) assms(3,4) have v: "v = snd (entries ?c ! k)" by simp
    from m k(1,2) len have "fst (entries ?c ! k) = i"
      by (metis nth_map)
    with v have "entries ?c ! k = (i, v)" by (simp add: prod_eq_iff)
    moreover have "entries ?c ! k \<in> set (entries ?c)"
      using k(1) len by simp
    ultimately show ?thesis by simp
  next
    case False
    with assms(1) unf have t: "t = \<lparr>columns = map label frames,
                 trows = map (\<lambda>t. (t, map (\<lambda>c. map_of (entries c) t) frames))
                           (union_index [] (concat (first # others)))\<rparr>"
      by (auto split: if_splits)
    from assms(2) t have "r = map (\<lambda>c. map_of (entries c) i) frames" by auto
    with assms(3,4) have "map_of (entries (frames ! j)) i = Some v" by simp
    then show ?thesis by (rule map_of_SomeD)
  qed
qed

lemma dropna_table_cells:
  assumes "(i, vs) \<in> set (trows (dropna_table env t))"
  shows "(i, map Some vs) \<in> set (trows t) \<and> (\<forall>v\<in>set vs. \<not> isna env v)"
proof -
  from assms obtain x where x: "x \<in> set (trows t)"
    "(case x of (i, r) \<Rightarrow> case whole_row env r of None \<Rightarrow> None | Some vs \<Rightarrow> Some (i, vs)) = Some (i, vs)"
    by (auto simp: dropna_table_def List.map_filter_def)
  obtain j r where jr: "x = (j, r)" by (cases x)
  with x(2) have "j = i" "whole_row env r = Some vs"
    by (auto split: option.splits)
  with x(1) jr show ?thesis by (simp add: whole_row_spec)
qed

lemma wide_table_rows:
  assumes "concat_axis1 frames = Inr t" "(i, vs) \<in> set (trows (dropna_table env t))"
  shows "length vs = length frames \<and>
         (\<forall>j<length frames. (i, vs ! j) \<in> set (entries (frames ! j)) \<and> \<not> isna env (vs ! j))"
proof -
  from dropna_table_cells [OF assms(2)] have
    r: "(i, map Some vs) \<in> set (trows t)" and na: "\<forall>v\<in>set vs. \<not> isna env v"
    by simp_all
  from concat_axis1_spec [OF assms(1)] r have len: "length vs = length frames"
    by fastforce
  have "(i, vs ! j) \<in> set (entries (frames ! j)) \<and> \<not> isna env (vs ! j)" if "j < length frames" for j
  proof -
    from that len have "map Some vs ! j = Some (vs ! j)" by simp
    from concat_axis1_cells [OF assms(1) r that this]
    have "(i, vs ! j) \<in> set (entries (frames ! j))" .
    moreover from that len na have "\<not> isna env (vs ! j)" by simp
    ultimately show ?thesis by simp
  qed
  with len show ?thesis by simp
qed

lemma wide_table_same_index:
  assumes "concat_axis1 frames = Inr t" "\<forall>c\<in>set frames. map fst (entries c) = idx"
  shows "trows (dropna_table env t) =
     List.map_filter
      (\<lambda>k. if \<exists>c\<in>set frames. isna env (snd (entries c ! k)) then None
           else Some (idx ! k, map (\<lambda>c. snd (entries c ! k)) frames)) [0 ..< length idx]"
proof -
  from concat_axis1_spec [OF assms(1)] have "frames \<noteq> []" by simp
  from concat_axis1_same_index [OF this assms(2)] assms(1) have
    "t = \<lparr>columns = map label frames,
          trows = map (\<lambda>k. (idx ! k, map (\<lambda>c. Some (snd (entries c ! k))) frames))
                    [0 ..< length idx]\<rparr>"
    by simp
  then show ?thesis
    by (simp add: dropna_table_same_index)
qed

lemma retrieve_day_columns:
  assumes "retrieve_day env z ric start end measr = Inr (Some (price_df, volume_df))"
  shows "\<exists>response numeric.
           get_summaries env ric start end = Inr response \<and>
           to_numeric_all env (map trdprc_1 (dropna env response)) = Inr numeric \<and>
           derive env measr numeric = Inr (map snd (entries price_df)) \<and>
           map snd (entries volume_df) = map acvol_uns (dropna env response)"
proof -
  from assms obtain response where g: "get_summaries env ric start end = Inr response"
    by (cases "get_summaries env ric start end") (auto simp: retrieve_day_def)
  from assms g obtain b bs where d: "dropna env response = b # bs"
    by (cases "dropna env response") (auto simp: retrieve_day_def)
  from assms g d obtain tz where z: "pytz_timezone env z = Inr tz"
    by (cases "pytz_timezone env z") (auto simp: retrieve_day_def)
  from assms g d z obtain numeric where
    n: "to_numeric_all env (map trdprc_1 (b # bs)) = Inr numeric"
    by (cases "to_numeric_all env (map trdprc_1 (b # bs))") (auto simp: retrieve_day_def)
  from assms g d z n obtain ps where p: "derive env measr numeric = Inr ps"
    by (cases "derive env measr numeric") (auto simp: retrieve_day_def)
  have len: "length ps = Suc (length bs)"
    using derive_length [OF p] to_numeric_all_length [OF n] by simp
  from assms g d z n p have
    pd: "price_df = \<lparr>label = local_date tz (fold max (map at bs) (at b)),
                     entries = zip (map (\<lambda>r. local_time tz (at r)) (b # bs)) ps\<rparr>" and
    vd: "volume_df = \<lparr>label = local_date tz (fold max (map at bs) (at b)),
                      entries = zip (map (\<lambda>r. local_time tz (at r)) (b # bs))
                                    (map acvol_uns (b # bs))\<rparr>"
    by (simp_all add: retrieve_day_def Let_def)
  have 1: "map snd (entries price_df) = ps"
    unfolding pd using len by simp
  have 2: "map snd (entries volume_df) = map acvol_uns (b # bs)"
    unfolding vd by simp
  have n': "to_numeric_all env (map trdprc_1 (dropna env response)) = Inr numeric"
    unfolding d by (rule n)
  have p': "derive env measr numeric = Inr (map snd (entries price_df))"
    unfolding 1 by (rule p)
  have v': "map snd (entries volume_df) = map acvol_uns (dropna env response)"
    unfolding d by (rule 2)
  from g n' p' v' show ?thesis by blast
qed

lemma returned_data_account:
  assumes "returned_data env tzname ric tr measr d = Some (p, v)"
  shows "\<exists>z tz start end response numeric.
        tzname = Value z \<and> pytz_timezone env z = Inr tz \<and>
        window env tzname d tr = Inr (start, end) \<and>
        get_summaries env ric start end = Inr response \<and> dropna env response \<noteq> [] \<and>
        label p = local_date tz (Max (at ` set (dropna env response))) \<and>
        label v = label p \<and>
        ((\<forall>b\<in>set (dropna env response). local_date tz (at b) = d) \<longrightarrow> label p = d) \<and>
        map fst (entries p) = map (\<lambda>b. local_time tz (at b)) (dropna env response) \<and>
        map fst (entries v) = map fst (entries p) \<and>
        to_numeric_all env (map trdprc_1 (dropna env response)) = Inr numeric \<and>
        derive env measr numeric = Inr (map snd (entries p)) \<and>
        map snd (entries v) = map acvol_uns (dropna env response)"
proof -
  from returned_data_Some [OF assms] obtain z start "end" where
    z: "tzname = Value z" and w: "window env tzname d tr = Inr (start, end)" and
    r: "retrieve_day env z ric start end measr = Inr (Some (p, v))"
    by blast
  from retrieve_day_index [OF r] obtain tz response where
    i: "pytz_timezone env z = Inr tz" "get_summaries env ric start end = Inr response"
      "dropna env response \<noteq> []"
      "map fst (entries p) = map (\<lambda>b. local_time tz (at b)) (dropna env response)"
      "map fst (entries v) = map (\<lambda>b. local_time tz (at b)) (dropna env response)"
      "label p = local_date tz (Max (at ` set (dropna env response)))"
      "label v = label p"
    by blast
  from retrieve_day_columns [OF r] i(2) obtain numeric where
    c: "to_numeric_all env (map trdprc_1 (dropna env response)) = Inr numeric"
      "derive env measr numeric = Inr (map snd (entries p))"
      "map snd (entries v) = map acvol_uns (dropna env response)"
    by auto
  have on_day: "label p = d" if "\<forall>b\<in>set (dropna env response). local_date tz (at b) = d"
  proof -
    have "Max (at ` set (dropna env response)) \<in> at ` set (dropna env response)"
      using i(3) by (intro Max_in) simp_all
    then obtain b where "b \<in> set (dropna env response)"
      "Max (at ` set (dropna env response)) = at b" by auto
    with that i(6) show ?thesis by simp
  qed
  have same: "map fst (entries v) = map fst (entries p)"
    using i(4,5) by simp
  from z w i(1,2,3,6,7) on_day i(4) same c show ?thesis by blast
qed

lemma calculate_measures_tables:
  assumes "as_list dates_in \<noteq> []" "length tr = 2"
    and "calculate_measures env self w ric dates_in tr measr = (self', w', Inr ())"
    and "prices self' = Some tp"
  shows "\<exists>p v. concat_axis1 (map fst (List.map_filter (returned_data env (f_tz self') ric tr measr)
                    (as_list dates_in))) = Inr p \<and>
      concat_axis1 (map snd (List.map_filter (returned_data env (f_tz self') ric tr measr)
                    (as_list dates_in))) = Inr v \<and>
      tp = dropna_table env p \<and> volumes self' = Some (dropna_table env v)"
proof -
  obtain a b ok where
    g: "get_timezone env (self\<lparr>f_prices := PyNone, f_volumes := PyNone\<rparr>) (print Processing w) ric
          = (a, b, ok)"
    by (cases "get_timezone env (self\<lparr>f_prices := PyNone, f_volumes := PyNone\<rparr>)
                 (print Processing w) ric")
  from get_timezone_tables [OF g] have t: "f_prices a = PyNone" "f_volumes a = PyNone"
    by simp_all
  note u = calculate_measures_unfold [OF assms(1,2), of env self w ric measr]
  have call1: "fst (calculate_measures env self w ric dates_in tr measr) = self'"
    using assms(3) by simp
  have ok: ok
  proof (rule ccontr)
    assume "\<not> ok"
    then have "calculate_measures env self w ric dates_in tr measr = organize env a b [] []"
      unfolding u g by simp
    with call1 have "fst (organize env a b [] []) = self'" by simp
    with organize_empty [OF t, of env b "[]"] assms(4) show False by simp
  qed
  obtain c res where e: "each_date env (f_tz a) ric tr measr (as_list dates_in) (b, [], []) = (c, res)"
    by (cases "each_date env (f_tz a) ric tr measr (as_list dates_in) (b, [], [])")
  have cm: "calculate_measures env self w ric dates_in tr measr =
        (case res of Inl e \<Rightarrow> (a, c, Inl e) | Inr (ps, vs) \<Rightarrow> organize env a c ps vs)"
    unfolding u g using ok e by simp
  obtain ps vs where res: "res = Inr (ps, vs)"
  proof (cases res)
    case (Inl x)
    then have "self' = a" using call1 unfolding cm by simp
    with t assms(4) show ?thesis by (simp add: prices_def)
  next
    case (Inr pv)
    then show ?thesis using that by (cases pv) simp
  qed
  have org: "organize env a c ps vs = (self', w', Inr ())"
    using assms(3) unfolding cm res by simp
  from organize_result [OF org t(1) assms(4)] obtain p v where
    cp: "concat_axis1 ps = Inr p" and cv: "concat_axis1 vs = Inr v" and
    tp: "tp = dropna_table env p" and tv: "volumes self' = Some (dropna_table env v)" and
    tz: "f_tz self' = f_tz a"
    by blast
  from each_date_spec [OF e [unfolded res]] have
    "ps = map fst (List.map_filter (returned_data env (f_tz self') ric tr measr) (as_list dates_in))"
    "vs = map snd (List.map_filter (returned_data env (f_tz self') ric tr measr) (as_list dates_in))"
    unfolding tz by simp_all
  with cp cv tp tv show ?thesis by blast
qed

lemma demo_returned:
  "List.map_filter (returned_data demo_env (Value ''America/New_York'') ''IBM.N'' demo_range None)
     (as_list (Single 737942)) =
   [(\<lparr>label = 737942, entries = [(37560, 100), (37620, 300), (37680, 200)]\<rparr>,
     \<lparr>label = 737942, entries = [(37560, 10), (37620, 20), (37680, 30)]\<rparr>)]"
  by code_simp

section \<open>Intraday: the claims about the tables\<close>

text \<open>
  C4, as amended. For every call to \<^verbatim>\<open>calculate_measures\<close> that passes the argument
  guard (a non-empty list of dates and a time range of length 2), \<^verbatim>\<open>_prices\<close> and
  \<^verbatim>\<open>_volumes\<close> after the call, and whether the call raised, depend only on that call's
  inputs and on what the services answer, never on the object or the world before the
  call. (A call that returns at the guard leaves the tables of the earlier call.)
\<close>

theorem C4_tables_overwritten:
  assumes "as_list dates_in \<noteq> []" "length tr = 2"
  shows "f_prices (fst (calculate_measures env self1 w1 ric dates_in tr measr)) =
         f_prices (fst (calculate_measures env self2 w2 ric dates_in tr measr)) \<and>
         f_volumes (fst (calculate_measures env self1 w1 ric dates_in tr measr)) =
         f_volumes (fst (calculate_measures env self2 w2 ric dates_in tr measr)) \<and>
         snd (snd (calculate_measures env self1 w1 ric dates_in tr measr)) =
         snd (snd (calculate_measures env self2 w2 ric dates_in tr measr))"
proof -
  obtain a1 b1 ok1 where
    g1: "get_timezone env (self1\<lparr>f_prices := PyNone, f_volumes := PyNone\<rparr>) (print Processing w1) ric
          = (a1, b1, ok1)"
    by (cases "get_timezone env (self1\<lparr>f_prices := PyNone, f_volumes := PyNone\<rparr>)
                 (print Processing w1) ric")
  obtain a2 b2 ok2 where
    g2: "get_timezone env (self2\<lparr>f_prices := PyNone, f_volumes := PyNone\<rparr>) (print Processing w2) ric
          = (a2, b2, ok2)"
    by (cases "get_timezone env (self2\<lparr>f_prices := PyNone, f_volumes := PyNone\<rparr>)
                 (print Processing w2) ric")
  from get_timezone_tables [OF g1] get_timezone_tables [OF g2] have
    t: "f_prices a1 = f_prices a2" "f_volumes a1 = f_volumes a2" and ok: "ok1 = ok2"
    by simp_all
  note u1 = calculate_measures_unfold [OF assms, of env self1 w1 ric measr]
  note u2 = calculate_measures_unfold [OF assms, of env self2 w2 ric measr]
  show ?thesis
  proof (cases ok1)
    case False
    have cm1: "calculate_measures env self1 w1 ric dates_in tr measr = organize env a1 b1 [] []"
      unfolding u1 g1 using False by simp
    have cm2: "calculate_measures env self2 w2 ric dates_in tr measr = organize env a2 b2 [] []"
      unfolding u2 g2 using False ok by simp
    show ?thesis unfolding cm1 cm2
      using organize_tables [OF t, of env b1 "[]" "[]" b2] by simp
  next
    case True
    have "f_tz a1 = f_tz a2"
    proof -
      from g1 True have "snd (snd (try_timezone env (self1\<lparr>f_prices := PyNone, f_volumes := PyNone\<rparr>) ric))"
        using get_timezone_success [of env "self1\<lparr>f_prices := PyNone, f_volumes := PyNone\<rparr>" "print Processing w1" ric]
          try_timezone_outcome [of env "self1\<lparr>f_prices := PyNone, f_volumes := PyNone\<rparr>" ric new_Intraday]
        by (simp add: timezone_found_def)
      from try_timezone_tz [OF this, of "self2\<lparr>f_prices := PyNone, f_volumes := PyNone\<rparr>"]
      show ?thesis
        using g1 g2 get_timezone_fst [of env "self1\<lparr>f_prices := PyNone, f_volumes := PyNone\<rparr>" "print Processing w1" ric]
          get_timezone_fst [of env "self2\<lparr>f_prices := PyNone, f_volumes := PyNone\<rparr>" "print Processing w2" ric]
        by simp
    qed
    then have e: "snd (each_date env (f_tz a1) ric tr measr (as_list dates_in) (b1, [], [])) =
        snd (each_date env (f_tz a2) ric tr measr (as_list dates_in) (b2, [], []))"
      using each_date_result [of env "f_tz a1" ric tr measr "as_list dates_in" b1 "[]" "[]" b2]
      by simp
    obtain c1 r1 where e1: "each_date env (f_tz a1) ric tr measr (as_list dates_in) (b1, [], []) = (c1, r1)"
      by (cases "each_date env (f_tz a1) ric tr measr (as_list dates_in) (b1, [], [])")
    obtain c2 r2 where e2: "each_date env (f_tz a2) ric tr measr (as_list dates_in) (b2, [], []) = (c2, r2)"
      by (cases "each_date env (f_tz a2) ric tr measr (as_list dates_in) (b2, [], [])")
    from e e1 e2 have r: "r2 = r1" by simp
    have cm1: "calculate_measures env self1 w1 ric dates_in tr measr =
        (case r1 of Inl e \<Rightarrow> (a1, c1, Inl e) | Inr (ps, vs) \<Rightarrow> organize env a1 c1 ps vs)"
      unfolding u1 g1 using True e1 by simp
    have cm2: "calculate_measures env self2 w2 ric dates_in tr measr =
        (case r1 of Inl e \<Rightarrow> (a2, c2, Inl e) | Inr (ps, vs) \<Rightarrow> organize env a2 c2 ps vs)"
      unfolding u2 g2 using True ok e2 r by simp
    show ?thesis
    proof (cases r1)
      case (Inl x)
      show ?thesis unfolding cm1 cm2 Inl using t by simp
    next
      case (Inr pv)
      obtain ps vs where pv: "pv = (ps, vs)" by (cases pv)
      show ?thesis unfolding cm1 cm2 Inr pv
        using organize_tables [OF t, of env c1 ps vs c2] by simp
    qed
  qed
qed

theorem C4_tables_overwritten_witness:
  "as_list (Several [737943]) \<noteq> [] \<and> length demo_range = 2 \<and>
   f_prices (fst (calculate_measures demo_env
       (fst (calculate_measures demo_env new_Intraday quiet ''IBM.N'' (Single 737942)
               demo_range None))
       quiet ''IBM.N'' (Several [737943]) demo_range None)) =
   f_prices (fst (calculate_measures demo_env new_Intraday quiet ''IBM.N'' (Several [737943])
       demo_range None)) \<and>
   f_prices (fst (calculate_measures demo_env new_Intraday quiet ''IBM.N'' (Several [737943])
       demo_range None)) = PyNone"
proof -
  have a: "as_list (Several [737943]) \<noteq> []" by (simp add: as_list_def)
  have b: "length demo_range = 2" by (simp add: demo_range_def)
  have c: "f_prices (fst (calculate_measures demo_env new_Intraday quiet ''IBM.N''
      (Several [737943]) demo_range None)) = PyNone"
    by (simp add: demo_call_failed)
  from C4_tables_overwritten [OF a b, where env = demo_env and ?self2.0 = new_Intraday
      and ?w2.0 = quiet and ric = "''IBM.N''" and measr = None
      and ?self1.0 = "fst (calculate_measures demo_env new_Intraday quiet ''IBM.N'' (Single 737942)
               demo_range None)" and ?w1.0 = quiet]
  show ?thesis using a b c by blast
qed

text \<open>
  The claim C4 as stated fails for a call that returns at the guard: after a call that
  stored tables, a call with an empty list of dates leaves them, while the same call
  on a new object leaves the attribute unset.
\<close>

theorem C4_counterexample:
  "f_prices (fst (calculate_measures demo_env
       (fst (calculate_measures demo_env new_Intraday quiet ''IBM.N'' (Single 737942)
               demo_range None))
       quiet ''IBM.N'' (Several []) demo_range None)) \<noteq>
   f_prices (fst (calculate_measures demo_env new_Intraday quiet ''IBM.N'' (Several [])
       demo_range None))"
  unfolding demo_call
  by (simp add: calculate_measures_def as_list_def new_Intraday_def)

text \<open>
  C5, as amended. After a call of \<^verbatim>\<open>calculate_measures\<close> that passed the guard, returned
  normally and left a price table, the object also holds a volume table. Both tables
  have one column per date that returned data (\<open>rd\<close>), in the order of the dates. The
  label of a column is the local date, in the trading timezone, of the latest bar
  returned for its date; it is that date itself whenever all bars returned for it fall
  on that date in the trading timezone. Each row is indexed by a time of day and holds,
  for every column, a cell that the day's column has at that time, none of them
  missing; when all days have the same index, the rows are exactly the positions of
  that index at which no day's cell is missing. The index, the prices and the volumes
  of a day's column are those of the response to its request.
\<close>

theorem C5_wide_tables:
  assumes "as_list dates_in \<noteq> []" "length tr = 2"
    and "calculate_measures env self w ric dates_in tr measr = (self', w', Inr ())"
    and "prices self' = Some tp"
    and "rd = List.map_filter (returned_data env (f_tz self') ric tr measr) (as_list dates_in)"
  shows "\<exists>tv. volumes self' = Some tv \<and> rd \<noteq> [] \<and>
      columns tp = map (\<lambda>(p, v). label p) rd \<and> columns tv = columns tp \<and>
      (\<forall>(i, r)\<in>set (trows tp). time_of_day i \<and> length r = length rd \<and>
          (\<forall>j<length rd. (i, r ! j) \<in> set (entries (fst (rd ! j))) \<and> \<not> isna env (r ! j))) \<and>
      (\<forall>(i, r)\<in>set (trows tv). time_of_day i \<and> length r = length rd \<and>
          (\<forall>j<length rd. (i, r ! j) \<in> set (entries (snd (rd ! j))) \<and> \<not> isna env (r ! j))) \<and>
      (\<forall>idx. (\<forall>x\<in>set rd. map fst (entries (fst x)) = idx) \<longrightarrow>
          trows tp = List.map_filter
            (\<lambda>k. if \<exists>x\<in>set rd. isna env (snd (entries (fst x) ! k)) then None
                 else Some (idx ! k, map (\<lambda>x. snd (entries (fst x) ! k)) rd)) [0 ..< length idx] \<and>
          trows tv = List.map_filter
            (\<lambda>k. if \<exists>x\<in>set rd. isna env (snd (entries (snd x) ! k)) then None
                 else Some (idx ! k, map (\<lambda>x. snd (entries (snd x) ! k)) rd)) [0 ..< length idx]) \<and>
      (\<forall>d p v. d \<in> set (as_list dates_in) \<and>
          returned_data env (f_tz self') ric tr measr d = Some (p, v) \<longrightarrow>
          (\<exists>z tz start end response numeric.
             f_tz self' = Value z \<and> pytz_timezone env z = Inr tz \<and>
             window env (f_tz self') d tr = Inr (start, end) \<and>
             get_summaries env ric start end = Inr response \<and> dropna env response \<noteq> [] \<and>
             label p = local_date tz (Max (at ` set (dropna env response))) \<and>
             label v = label p \<and>
             ((\<forall>b\<in>set (dropna env response). local_date tz (at b) = d) \<longrightarrow> label p = d) \<and>
             map fst (entries p) = map (\<lambda>b. local_time tz (at b)) (dropna env response) \<and>
             map fst (entries v) = map fst (entries p) \<and>
             to_numeric_all env (map trdprc_1 (dropna env response)) = Inr numeric \<and>
             derive env measr numeric = Inr (map snd (entries p)) \<and>
             map snd (entries v) = map acvol_uns (dropna env response)))"
proof -
  from calculate_measures_tables [OF assms(1-4)] obtain p v where
    cp: "concat_axis1 (map fst rd) = Inr p" and cv: "concat_axis1 (map snd rd) = Inr v" and
    tp: "tp = dropna_table env p" and tv: "volumes self' = Some (dropna_table env v)"
    unfolding assms(5) by blast
  note sp = concat_axis1_spec [OF cp]
  note sv = concat_axis1_spec [OF cv]
  have ne: "rd \<noteq> []" using sp by simp
  have rd_mem: "\<exists>d\<in>set (as_list dates_in).
      returned_data env (f_tz self') ric tr measr d = Some (fst x, snd x)"
    if "x \<in> set rd" for x
    using that unfolding assms(5) map_filter_mem by simp
  have acc: "label (snd x) = label (fst x) \<and> map fst (entries (snd x)) = map fst (entries (fst x)) \<and>
      (\<forall>i\<in>fst ` set (entries (fst x)). time_of_day i) \<and>
      (\<forall>i\<in>fst ` set (entries (snd x)). time_of_day i)"
    if "x \<in> set rd" for x
  proof -
    from rd_mem [OF that] obtain d where
      d: "returned_data env (f_tz self') ric tr measr d = Some (fst x, snd x)" by blast
    from returned_data_account [OF d] returned_data_times [OF d] show ?thesis by blast
  qed
  have col_p: "columns tp = map (\<lambda>(p, v). label p) rd"
    unfolding tp using sp by (simp add: case_prod_unfold comp_def)
  have col_v: "columns (dropna_table env v) = columns tp"
    unfolding col_p using sv acc by (simp add: case_prod_unfold comp_def)
  have rows_p: "time_of_day i \<and> length r = length rd \<and>
      (\<forall>j<length rd. (i, r ! j) \<in> set (entries (fst (rd ! j))) \<and> \<not> isna env (r ! j))"
    if "(i, r) \<in> set (trows tp)" for i r
  proof -
    from that have m: "(i, r) \<in> set (trows (dropna_table env p))" unfolding tp .
    from wide_table_rows [OF cp m] have
      l: "length r = length rd" and
      c: "\<forall>j<length rd. (i, r ! j) \<in> set (entries (fst (rd ! j))) \<and> \<not> isna env (r ! j)"
      by simp_all
    from ne have 0: "0 < length rd" by simp
    with c have "(i, r ! 0) \<in> set (entries (fst (rd ! 0)))" by blast
    then have "i \<in> fst ` set (entries (fst (rd ! 0)))" by force
    moreover from 0 have "rd ! 0 \<in> set rd" by simp
    ultimately have "time_of_day i" using acc by blast
    with l c show ?thesis by simp
  qed
  have rows_v: "time_of_day i \<and> length r = length rd \<and>
      (\<forall>j<length rd. (i, r ! j) \<in> set (entries (snd (rd ! j))) \<and> \<not> isna env (r ! j))"
    if "(i, r) \<in> set (trows (dropna_table env v))" for i r
  proof -
    from wide_table_rows [OF cv that] have
      l: "length r = length rd" and
      c: "\<forall>j<length rd. (i, r ! j) \<in> set (entries (snd (rd ! j))) \<and> \<not> isna env (r ! j)"
      by simp_all
    from ne have 0: "0 < length rd" by simp
    with c have "(i, r ! 0) \<in> set (entries (snd (rd ! 0)))" by blast
    then have "i \<in> fst ` set (entries (snd (rd ! 0)))" by force
    moreover from 0 have "rd ! 0 \<in> set rd" by simp
    ultimately have "time_of_day i" using acc by blast
    with l c show ?thesis by simp
  qed
  have same: "trows tp = List.map_filter
            (\<lambda>k. if \<exists>x\<in>set rd. isna env (snd (entries (fst x) ! k)) then None
                 else Some (idx ! k, map (\<lambda>x. snd (entries (fst x) ! k)) rd)) [0 ..< length idx] \<and>
          trows (dropna_table env v) = List.map_filter
            (\<lambda>k. if \<exists>x\<in>set rd. isna env (snd (entries (snd x) ! k)) then None
                 else Some (idx ! k, map (\<lambda>x. snd (entries (snd x) ! k)) rd)) [0 ..< length idx]"
    if h: "\<forall>x\<in>set rd. map fst (entries (fst x)) = idx" for idx
  proof -
    have ip: "\<forall>c\<in>set (map fst rd). map fst (entries c) = idx"
      using h by simp
    have iv: "\<forall>c\<in>set (map snd rd). map fst (entries c) = idx"
      using h acc by simp
    from wide_table_same_index [OF cp ip, of env] wide_table_same_index [OF cv iv, of env]
    show ?thesis unfolding tp by (simp add: comp_def cong: if_cong)
  qed
  have account: "\<exists>z tz start end response numeric.
             f_tz self' = Value z \<and> pytz_timezone env z = Inr tz \<and>
             window env (f_tz self') d tr = Inr (start, end) \<and>
             get_summaries env ric start end = Inr response \<and> dropna env response \<noteq> [] \<and>
             label p = local_date tz (Max (at ` set (dropna env response))) \<and>
             label v = label p \<and>
             ((\<forall>b\<in>set (dropna env response). local_date tz (at b) = d) \<longrightarrow> label p = d) \<and>
             map fst (entries p) = map (\<lambda>b. local_time tz (at b)) (dropna env response) \<and>
             map fst (entries v) = map fst (entries p) \<and>
             to_numeric_all env (map trdprc_1 (dropna env response)) = Inr numeric \<and>
             derive env measr numeric = Inr (map snd (entries p)) \<and>
             map snd (entries v) = map acvol_uns (dropna env response)"
    if "d \<in> set (as_list dates_in) \<and> returned_data env (f_tz self') ric tr measr d = Some (p, v)"
    for d p v
    using returned_data_account [of env "f_tz self'" ric tr measr d p v] that by simp
  have 1: "\<forall>(i, r)\<in>set (trows tp). time_of_day i \<and> length r = length rd \<and>
          (\<forall>j<length rd. (i, r ! j) \<in> set (entries (fst (rd ! j))) \<and> \<not> isna env (r ! j))"
    using rows_p by blast
  have 2: "\<forall>(i, r)\<in>set (trows (dropna_table env v)). time_of_day i \<and> length r = length rd \<and>
          (\<forall>j<length rd. (i, r ! j) \<in> set (entries (snd (rd ! j))) \<and> \<not> isna env (r ! j))"
    using rows_v by blast
  have 3: "\<forall>idx. (\<forall>x\<in>set rd. map fst (entries (fst x)) = idx) \<longrightarrow>
          trows tp = List.map_filter
            (\<lambda>k. if \<exists>x\<in>set rd. isna env (snd (entries (fst x) ! k)) then None
                 else Some (idx ! k, map (\<lambda>x. snd (entries (fst x) ! k)) rd)) [0 ..< length idx] \<and>
          trows (dropna_table env v) = List.map_filter
            (\<lambda>k. if \<exists>x\<in>set rd. isna env (snd (entries (snd x) ! k)) then None
                 else Some (idx ! k, map (\<lambda>x. snd (entries (snd x) ! k)) rd)) [0 ..< length idx]"
    using same by blast
  have 4: "\<forall>d p v. d \<in> set (as_list dates_in) \<and>
          returned_data env (f_tz self') ric tr measr d = Some (p, v) \<longrightarrow>
          (\<exists>z tz start end response numeric.
             f_tz self' = Value z \<and> pytz_timezone env z = Inr tz \<and>
             window env (f_tz self') d tr = Inr (start, end) \<and>
             get_summaries env ric start end = Inr response \<and> dropna env response \<noteq> [] \<and>
             label p = local_date tz (Max (at ` set (dropna env response))) \<and>
             label v = label p \<and>
             ((\<forall>b\<in>set (dropna env response). local_date tz (at b) = d) \<longrightarrow> label p = d) \<and>
             map fst (entries p) = map (\<lambda>b. local_time tz (at b)) (dropna env response) \<and>
             map fst (entries v) = map fst (entries p) \<and>
             to_numeric_all env (map trdprc_1 (dropna env response)) = Inr numeric \<and>
             derive env measr numeric = Inr (map snd (entries p)) \<and>
             map snd (entries v) = map acvol_uns (dropna env response))"
    using account by blast
  from tv ne col_p col_v 1 2 3 4 show ?thesis
    by (intro exI [of _ "dropna_table env v"] conjI)
qed

theorem C5_wide_tables_witness:
  "as_list (Single 737942) \<noteq> [] \<and> length demo_range = 2 \<and>
   prices (fst (calculate_measures demo_env new_Intraday quiet ''IBM.N'' (Single 737942)
            demo_range None)) =
     Some \<lparr>columns = [737942], trows = [(37560, [100]), (37620, [300]), (37680, [200])]\<rparr> \<and>
   volumes (fst (calculate_measures demo_env new_Intraday quiet ''IBM.N'' (Single 737942)
            demo_range None)) =
     Some \<lparr>columns = [737942], trows = [(37560, [10]), (37620, [20]), (37680, [30])]\<rparr>"
proof -
  define s where "s = \<lparr>f_tz = Value ''America/New_York'',
       f_label = Value ''INTL BUS MACHINE (Timezone: America/New_York)'',
       f_prices = Value \<lparr>columns = [737942],
                         trows = [(37560, [100::int]), (37620, [300]), (37680, [200])]\<rparr>,
       f_volumes = Value \<lparr>columns = [737942],
                          trows = [(37560, [10::int]), (37620, [20]), (37680, [30])]\<rparr>\<rparr>"
  define rd where "rd =
     [(\<lparr>label = 737942, entries = [(37560, 100::int), (37620, 300), (37680, 200)]\<rparr>,
       \<lparr>label = 737942, entries = [(37560, 10::int), (37620, 20), (37680, 30)]\<rparr>)]"
  have a: "as_list (Single 737942) \<noteq> []" "length demo_range = 2"
    by (simp_all add: as_list_def demo_range_def)
  have c: "calculate_measures demo_env new_Intraday quiet ''IBM.N'' (Single 737942) demo_range None =
      (s, \<lparr>printed = [Processing, Done],
           requests = [(''IBM.N'', 63758240760, 63758264160)], charts = []\<rparr>, Inr ())"
    unfolding s_def by (rule demo_call)
  have p: "prices s = Some \<lparr>columns = [737942],
                         trows = [(37560, [100]), (37620, [300]), (37680, [200])]\<rparr>"
    by (simp add: prices_def s_def)
  have r: "rd = List.map_filter (returned_data demo_env (f_tz s) ''IBM.N'' demo_range None)
      (as_list (Single 737942))"
    unfolding rd_def s_def by (simp add: demo_returned)
  have i: "\<forall>x\<in>set rd. map fst (entries (fst x)) = [37560, 37620, 37680]"
    by (simp add: rd_def)
  from C5_wide_tables [OF a c p r] i obtain tv where
    tv: "volumes s = Some tv"
      "columns tv = columns \<lparr>columns = [737942],
                         trows = [(37560, [100::int]), (37620, [300]), (37680, [200])]\<rparr>"
      "trows tv = List.map_filter
            (\<lambda>k. if \<exists>x\<in>set rd. isna demo_env (snd (entries (snd x) ! k)) then None
                 else Some ([37560, 37620, 37680 :: int] ! k, map (\<lambda>x. snd (entries (snd x) ! k)) rd))
            [0 ..< length [37560, 37620, 37680 :: int]]"
    by blast
  have e: "List.map_filter
            (\<lambda>k. if \<exists>x\<in>set rd. isna demo_env (snd (entries (snd x) ! k)) then None
                 else Some ([37560, 37620, 37680 :: int] ! k, map (\<lambda>x. snd (entries (snd x) ! k)) rd))
            [0 ..< length [37560, 37620, 37680 :: int]] =
        [(37560, [10]), (37620, [20]), (37680, [30])]"
    unfolding rd_def by code_simp
  from tv(2,3) e have "tv = \<lparr>columns = [737942], trows = [(37560, [10]), (37620, [20]), (37680, [30])]\<rparr>"
    by (cases tv) simp
  with tv(1) p a show ?thesis unfolding c by simp
qed

text \<open>
  The claim C5 as stated fails where the latest bar returned for a date falls on the
  next day in the trading timezone: for 2021-06-01 with the range 09:30 to 23:30 in the
  second example, the call returns normally and the only column of the price table is
  labelled 2021-06-02 (ordinal 737943), which is not a requested date.
\<close>

theorem C5_counterexample:
  "as_list (Single 737942) = [737942] \<and>
   prices (fst (calculate_measures late_env new_Intraday quiet ''IBM.N'' (Single 737942)
      late_range None)) = Some \<lparr>columns = [737943], trows = [(1500, [100])]\<rparr> \<and>
   snd (snd (calculate_measures late_env new_Intraday quiet ''IBM.N'' (Single 737942)
      late_range None)) = Inr ()"
  by code_simp

text \<open>
  C9, as amended. The properties \<^verbatim>\<open>prices\<close> and \<^verbatim>\<open>volumes\<close> are \<^verbatim>\<open>None\<close> on a new object,
  and after any call that passes the argument guard in which the timezone was not found
  or no date returned data. A call that returns at the guard leaves both properties as
  they were before it.
\<close>

theorem C9_none_without_measures:
  "prices (new_Intraday :: 'v Intraday) = None \<and> volumes (new_Intraday :: 'v Intraday) = None \<and>
   (as_list dates_in \<noteq> [] \<and> length tr = 2 \<and>
    calculate_measures env self w ric dates_in tr measr = (self', w', r) \<and>
    (\<not> timezone_found env ric \<or>
     (\<forall>d\<in>set (as_list dates_in). returned_data env (f_tz self') ric tr measr d = None)) \<longrightarrow>
    prices self' = None \<and> volumes self' = None) \<and>
   ((as_list dates_in = [] \<or> length tr \<noteq> 2) \<and>
    calculate_measures env self w ric dates_in tr measr = (self', w', r) \<longrightarrow>
    prices self' = prices self \<and> volumes self' = volumes self)"
proof (intro conjI impI)
  show "prices (new_Intraday :: 'v Intraday) = None" "volumes (new_Intraday :: 'v Intraday) = None"
    by (simp_all add: prices_def volumes_def new_Intraday_def)
next
  assume "(as_list dates_in = [] \<or> length tr \<noteq> 2) \<and>
    calculate_measures env self w ric dates_in tr measr = (self', w', r)"
  then have "self' = self" by (auto simp: calculate_measures_def)
  then show "prices self' = prices self" "volumes self' = volumes self" by simp_all
next
  assume h: "as_list dates_in \<noteq> [] \<and> length tr = 2 \<and>
    calculate_measures env self w ric dates_in tr measr = (self', w', r) \<and>
    (\<not> timezone_found env ric \<or>
     (\<forall>d\<in>set (as_list dates_in). returned_data env (f_tz self') ric tr measr d = None))"
  then have guard: "as_list dates_in \<noteq> []" "length tr = 2" and
    call: "calculate_measures env self w ric dates_in tr measr = (self', w', r)" and
    nodata: "\<not> timezone_found env ric \<or>
     (\<forall>d\<in>set (as_list dates_in). returned_data env (f_tz self') ric tr measr d = None)"
    by simp_all
  obtain a b ok where
    g: "get_timezone env (self\<lparr>f_prices := PyNone, f_volumes := PyNone\<rparr>) (print Processing w) ric
          = (a, b, ok)"
    by (cases "get_timezone env (self\<lparr>f_prices := PyNone, f_volumes := PyNone\<rparr>)
                 (print Processing w) ric")
  from get_timezone_tables [OF g] have
    t: "f_prices a = PyNone" "f_volumes a = PyNone" and ok: "ok = timezone_found env ric"
    by simp_all
  note u = calculate_measures_unfold [OF guard, of env self w ric measr]
  have "prices self' = None \<and> volumes self' = None"
  proof (cases ok)
    case False
    have "calculate_measures env self w ric dates_in tr measr = organize env a b [] []"
      unfolding u g using False by simp
    with call have "fst (organize env a b [] []) = self'" by simp
    with organize_empty [OF t, of env b "[]"] show ?thesis by simp
  next
    case True
    obtain c res where e: "each_date env (f_tz a) ric tr measr (as_list dates_in) (b, [], []) = (c, res)"
      by (cases "each_date env (f_tz a) ric tr measr (as_list dates_in) (b, [], [])")
    have cm: "calculate_measures env self w ric dates_in tr measr =
        (case res of Inl e \<Rightarrow> (a, c, Inl e) | Inr (ps, vs) \<Rightarrow> organize env a c ps vs)"
      unfolding u g using True e by simp
    show ?thesis
    proof (cases res)
      case (Inl x)
      have "fst (calculate_measures env self w ric dates_in tr measr) = self'"
        using call by simp
      then have "self' = a"
        unfolding cm Inl by simp
      with t show ?thesis by (simp add: prices_def volumes_def)
    next
      case (Inr pv)
      obtain ps vs where pv: "pv = (ps, vs)" by (cases pv)
      have "fst (calculate_measures env self w ric dates_in tr measr) = self'"
        using call by simp
      then have s: "fst (organize env a c ps vs) = self'"
        unfolding cm Inr pv by simp
      then have tz: "f_tz self' = f_tz a"
        by (auto simp: organize_def split: sum.splits if_splits)
      from True ok nodata tz have
        "\<forall>d\<in>set (as_list dates_in). returned_data env (f_tz a) ric tr measr d = None"
        by simp
      then have "List.map_filter (returned_data env (f_tz a) ric tr measr) (as_list dates_in) = []"
        by (simp add: List.map_filter_def filter_empty_conv)
      with each_date_spec [of env "f_tz a" ric tr measr "as_list dates_in" b "[]" "[]" c ps vs] e Inr pv
      have "ps = []" by simp
      with s organize_empty [OF t, of env c vs] show ?thesis by auto
    qed
  qed
  then show "prices self' = None" "volumes self' = None" by simp_all
qed

theorem C9_none_without_measures_witness:
  "prices (fst (calculate_measures demo_env new_Intraday quiet ''IBM.N'' (Several [737943])
      demo_range None)) = None \<and>
   volumes (fst (calculate_measures demo_env new_Intraday quiet ''IBM.N'' (Several [737943])
      demo_range None)) = None"
proof -
  define s where "s = \<lparr>f_tz = Value ''America/New_York'',
       f_label = Value ''INTL BUS MACHINE (Timezone: America/New_York)'',
       f_prices = (PyNone :: int table attr), f_volumes = (PyNone :: int table attr)\<rparr>"
  have a: "as_list (Several [737943]) \<noteq> []" "length demo_range = 2"
    by (simp_all add: as_list_def demo_range_def)
  have n: "\<forall>d\<in>set (as_list (Several [737943])).
      returned_data demo_env (f_tz s) ''IBM.N'' demo_range None d = None"
    by (simp add: as_list_def s_def demo_no_data)
  have c: "calculate_measures demo_env new_Intraday quiet ''IBM.N'' (Several [737943]) demo_range None =
      (s, \<lparr>printed = [Processing,
                  IssueRetrieving ''IBM.N'' 63758327160 63758350560 (ServiceError ''timeout''),
                  FailedToGenerate, Done],
       requests = [(''IBM.N'', 63758327160, 63758350560)], charts = []\<rparr>, Inr ())"
    unfolding s_def by (rule demo_call_failed)
  from C9_none_without_measures [where env = demo_env and self = new_Intraday and w = quiet
      and ric = "''IBM.N''" and dates_in = "Several [737943]" and tr = demo_range and measr = None
      and self' = s] a n c
  have "prices s = None \<and> volumes s = None" by blast
  then show ?thesis unfolding c by simp
qed

text \<open>
  The claim C9 as stated fails for a call that returns at the guard: after a call that
  generated measures, a call with an empty list of dates, in which no date yields
  data, leaves \<^verbatim>\<open>prices\<close> equal to the earlier table.
\<close>

theorem C9_counterexample:
  "as_list (Several []) = [] \<and>
   prices (fst (calculate_measures demo_env
       (fst (calculate_measures demo_env new_Intraday quiet ''IBM.N'' (Single 737942)
               demo_range None))
       quiet ''IBM.N'' (Several []) demo_range None)) =
   Some \<lparr>columns = [737942], trows = [(37560, [100]), (37620, [300]), (37680, [200])]\<rparr>"
  unfolding demo_call
  by (simp add: calculate_measures_def as_list_def prices_def)

end
